theory Spec2Isabelle
  imports Main "HOL-Library.Sublist"
begin

section \<open>Python strings\<close>

text \<open>
  A Python \<open>str\<close> is modelled as a \<^typ>\<open>string\<close>; a \<^typ>\<open>char\<close> stands for a code
  point below 256.  The functions of this section are the \<open>str\<close>, \<open>re\<close> and
  \<open>textwrap\<close> operations that \<open>approach/utils/merge_tests.py\<close> calls.
\<close>

abbreviation LF :: char where "LF \<equiv> CHR 0x0A"
abbreviation CR :: char where "CR \<equiv> CHR 0x0D"
abbreviation TAB :: char where "TAB \<equiv> CHR 0x09"

text \<open>\<open>str.isspace\<close> on one character; the regular expression class \<open>\s\<close> is the same set.\<close>

definition isspace :: "char \<Rightarrow> bool" where
  "isspace c = (c \<in> set [CHR 0x09, CHR 0x0A, CHR 0x0B, CHR 0x0C, CHR 0x0D, CHR 0x1C,
     CHR 0x1D, CHR 0x1E, CHR 0x1F, CHR 0x20, CHR 0x85, CHR 0xA0])"

text \<open>The characters at which \<open>str.splitlines\<close> ends a line.\<close>

definition is_linebreak :: "char \<Rightarrow> bool" where
  "is_linebreak c = (c \<in> set [CHR 0x0A, CHR 0x0B, CHR 0x0C, CHR 0x0D, CHR 0x1C,
     CHR 0x1D, CHR 0x1E, CHR 0x85])"

definition lstrip :: "string \<Rightarrow> string" where
  "lstrip s = dropWhile isspace s"

definition rstrip :: "string \<Rightarrow> string" where
  "rstrip s = rev (dropWhile isspace (rev s))"

definition strip :: "string \<Rightarrow> string" where
  "strip s = lstrip (rstrip s)"

text \<open>\<open>s.rstrip('\r\n')\<close>\<close>

definition rstrip_crlf :: "string \<Rightarrow> string" where
  "rstrip_crlf s = rev (dropWhile (\<lambda>c. c = CR \<or> c = LF) (rev s))"

definition endswith :: "string \<Rightarrow> string \<Rightarrow> bool" where
  "endswith s t = suffix t s"

definition startswith :: "string \<Rightarrow> string \<Rightarrow> bool" where
  "startswith s t = prefix t s"

text \<open>\<open>sep.join(xs)\<close>\<close>

fun join :: "string \<Rightarrow> string list \<Rightarrow> string" where
  "join sep [] = []"
| "join sep [x] = x"
| "join sep (x # y # ys) = x @ sep @ join sep (y # ys)"

text \<open>\<open>s.splitlines(keepends=True)\<close>: \<open>\r\n\<close> is one line end.\<close>

fun splitlines_keepends :: "string \<Rightarrow> string list" where
  "splitlines_keepends [] = []"
| "splitlines_keepends (c # cs) =
     (if c = CR then
        (case cs of
           [] \<Rightarrow> [[c]]
         | d # ds \<Rightarrow> if d = LF then [c, d] # splitlines_keepends ds
                    else [c] # splitlines_keepends cs)
      else if is_linebreak c then [c] # splitlines_keepends cs
      else (case splitlines_keepends cs of
              [] \<Rightarrow> [[c]]
            | l # ls \<Rightarrow> (c # l) # ls))"

text \<open>One line without its line end.\<close>

definition chop_linebreak :: "string \<Rightarrow> string" where
  "chop_linebreak l =
     (if endswith l [CR, LF] then butlast (butlast l)
      else if l \<noteq> [] \<and> is_linebreak (last l) then butlast l
      else l)"

text \<open>\<open>s.splitlines()\<close>\<close>

definition splitlines :: "string \<Rightarrow> string list" where
  "splitlines s = map chop_linebreak (splitlines_keepends s)"

text \<open>\<open>s.split('\n')\<close>: the pieces between line feeds, one more than there are line feeds.\<close>

fun split_lf :: "string \<Rightarrow> string list" where
  "split_lf [] = [[]]"
| "split_lf (c # cs) =
     (if c = LF then [] # split_lf cs
      else (case split_lf cs of
              [] \<Rightarrow> [[c]]
            | l # ls \<Rightarrow> (c # l) # ls))"

text \<open>
  \<open>textwrap.dedent\<close>, as the standard library defines it with regular expressions in
  multi-line mode (where only a line feed ends a line):
  a line of blanks and tabs only becomes empty (\<open>^[ \t]+$\<close>);
  the margin is the longest common prefix of the leading blanks and tabs of the lines
  that hold another character (\<open>(^[ \t]*)(?:[^ \t\n])\<close>);
  the margin is removed from every line that starts with it.
\<close>

definition blank_or_tab :: "char \<Rightarrow> bool" where
  "blank_or_tab c = (c = CHR 0x20 \<or> c = TAB)"

fun common_prefix :: "string \<Rightarrow> string \<Rightarrow> string" where
  "common_prefix (x # xs) (y # ys) = (if x = y then x # common_prefix xs ys else [])"
| "common_prefix _ _ = []"

definition dedent_margin :: "string list \<Rightarrow> string option" where
  "dedent_margin ls =
     fold (\<lambda>indent margin. case margin of None \<Rightarrow> Some indent
                                | Some m \<Rightarrow> Some (common_prefix m indent))
          (map (takeWhile blank_or_tab) (filter (\<lambda>l. dropWhile blank_or_tab l \<noteq> []) ls))
          None"

definition dedent :: "string \<Rightarrow> string" where
  "dedent text =
     (let ls = map (\<lambda>l. if list_all blank_or_tab l then [] else l) (split_lf text)
      in case dedent_margin ls of
           None \<Rightarrow> join [LF] ls
         | Some margin \<Rightarrow>
             join [LF] (map (\<lambda>l. if startswith l margin then drop (length margin) l else l) ls))"

text \<open>The decimal form of an integer, as an f-string prints it.\<close>

fun str_nat :: "nat \<Rightarrow> string" where
  "str_nat n =
     (if n < 10 then [''0123456789'' ! n]
      else str_nat (n div 10) @ [''0123456789'' ! (n mod 10)])"

definition str_int :: "int \<Rightarrow> string" where
  "str_int i = (if i < 0 then CHR ''-'' # str_nat (nat (- i)) else str_nat (nat i))"

text \<open>
  \<open>repr\<close> of a string and of a list of strings, for the strings the program prints with
  it: parameter names, which hold no quote, no backslash and no control character.
\<close>

definition repr_str :: "string \<Rightarrow> string" where
  "repr_str s = [CHR 0x27] @ s @ [CHR 0x27]"

definition repr_list :: "string list \<Rightarrow> string" where
  "repr_list xs = ''['' @ join '', '' (map repr_str xs) @ '']''"

text \<open>\<open>str\<close> of an optional string (\<open>None\<close> prints as \<open>None\<close>).\<close>

definition str_opt :: "string option \<Rightarrow> string" where
  "str_opt x = (case x of None \<Rightarrow> ''None'' | Some s \<Rightarrow> s)"

text \<open>\<open>str.upper\<close> on the letters a to z.\<close>

definition upper_char :: "char \<Rightarrow> char" where
  "upper_char c =
     (case map_of (zip ''abcdefghijklmnopqrstuvwxyz'' ''ABCDEFGHIJKLMNOPQRSTUVWXYZ'') c of
        None \<Rightarrow> c
      | Some d \<Rightarrow> d)"

definition upper :: "string \<Rightarrow> string" where
  "upper s = map upper_char s"

text \<open>
  Python indexing of a slice \<open>xs[i:j]\<close>: a negative bound counts from the end, and both
  bounds are clamped to the list.
\<close>

definition slice_bound :: "nat \<Rightarrow> int \<Rightarrow> nat" where
  "slice_bound n i = (if i < 0 then nat (int n + i) else min (nat i) n)"

definition py_slice :: "'a list \<Rightarrow> int \<Rightarrow> int \<Rightarrow> 'a list" where
  "py_slice xs i j =
     (let a = slice_bound (length xs) i; b = slice_bound (length xs) j
      in take (b - a) (drop a xs))"

text \<open>\<open>f"'{s}'"\<close>\<close>

definition quote :: "string \<Rightarrow> string" where
  "quote s = [CHR 0x27] @ s @ [CHR 0x27]"

text \<open>
  A position inside a line, as the parser gives it, counts the bytes of the UTF-8 form of
  the line: a character below 128 is one byte, a character from 128 to 255 is two.
  \<open>byte_take n s\<close> and \<open>byte_drop n s\<close> are \<open>s.encode()[:n].decode()\<close> and
  \<open>s.encode()[n:].decode()\<close> for an \<open>n\<close> that does not fall inside a character.
\<close>

definition utf8_size :: "char \<Rightarrow> nat" where
  "utf8_size c = (if digit7 c then 2 else 1)"

fun byte_take :: "nat \<Rightarrow> string \<Rightarrow> string" where
  "byte_take n [] = []"
| "byte_take n (c # cs) =
     (if n < utf8_size c then [] else c # byte_take (n - utf8_size c) cs)"

fun byte_drop :: "nat \<Rightarrow> string \<Rightarrow> string" where
  "byte_drop n [] = []"
| "byte_drop n (c # cs) =
     (if n < utf8_size c then c # cs else byte_drop (n - utf8_size c) cs)"

text \<open>
  The lines of a source text as the parser counts them (\<open>ast._splitlines_no_ff\<close>): a line
  ends at \<open>\n\<close>, \<open>\r\n\<close> or \<open>\r\<close> and at no other character.
\<close>

fun source_lines :: "string \<Rightarrow> string list" where
  "source_lines [] = []"
| "source_lines (c # cs) =
     (if c = CR then
        (case cs of
           [] \<Rightarrow> [[c]]
         | d # ds \<Rightarrow> if d = LF then [c, d] # source_lines ds
                    else [c] # source_lines cs)
      else if c = LF then [c] # source_lines cs
      else (case source_lines cs of
              [] \<Rightarrow> [[c]]
            | l # ls \<Rightarrow> (c # l) # ls))"

section \<open>Syntax trees\<close>

text \<open>
  What \<open>ast.parse\<close> returns, as far as the program reads it: of a module its body; of a
  statement its kind, \<open>lineno\<close> and \<open>end_lineno\<close> (both always set by the parser); of a
  class and of a function the name, the decorators and the body; of a function its
  \<open>arguments\<close> and \<open>col_offset\<close>; of a decorator expression its first and last line.
  An \<open>arg\<close> node is its name (the program reads \<open>a.arg\<close> only).
  The trees also hold the \<open>col_offset\<close> of every statement and the \<open>col_offset\<close> and
  \<open>end_col_offset\<close> of a decorator expression (offsets in bytes of the UTF-8 form of the
  line).  The program does not read them; they say where in its line a statement or a
  decorator expression stands, which the properties of the appended body and of the
  decorators need.
  \<open>OtherStmt\<close> is every statement that is not an \<open>ast.Import\<close>, \<open>ast.ImportFrom\<close>,
  \<open>ast.ClassDef\<close> or \<open>ast.FunctionDef\<close> (an \<open>async def\<close> among them).
\<close>

datatype arguments = Arguments
  (a_posonlyargs: "string list")
  (a_args: "string list")
  (a_vararg: "string option")
  (a_kwonlyargs: "string list")
  (a_kwarg: "string option")

datatype expr = Expr (e_lineno: int) (e_end_lineno: int) (e_col_offset: int) (e_end_col_offset: int)

datatype import_alias = Alias (alias_name: string) (asname: "string option")

datatype stmt =
    is_Import: Import (lineno: int) (end_lineno: int) (col_offset: int)
      (names: "import_alias list")
  | is_ImportFrom: ImportFrom (lineno: int) (end_lineno: int) (col_offset: int)
      (module: "string option") (names: "import_alias list") (level: int)
  | is_ClassDef: ClassDef (lineno: int) (end_lineno: int) (col_offset: int) (name: string)
      (decorator_list: "expr list") (body: "stmt list")
  | is_FunctionDef: FunctionDef (lineno: int) (end_lineno: int) (col_offset: int) (name: string)
      (args: arguments) (decorator_list: "expr list") (body: "stmt list")
  | is_OtherStmt: OtherStmt (lineno: int) (end_lineno: int) (col_offset: int)

text \<open>
  \<open>ast.parse\<close> is a parameter of the model: a parser maps a source text to the message
  of the \<open>SyntaxError\<close> it raises or to the body of the module.
\<close>

type_synonym parser = "string \<Rightarrow> string + stmt list"

text \<open>
  \<open>ast.dump(n)\<close> of an import statement prints the node without its positions; two dumps
  are equal exactly when these contents are.
\<close>

datatype dump =
    ImportDump "import_alias list"
  | ImportFromDump "string option" "import_alias list" int
  | NoDump

fun ast_dump :: "stmt \<Rightarrow> dump" where
  "ast_dump (Import l e c ns) = ImportDump ns"
| "ast_dump (ImportFrom l e c md ns lv) = ImportFromDump md ns lv"
| "ast_dump _ = NoDump"

definition is_import :: "stmt \<Rightarrow> bool" where
  "is_import n = (is_Import n \<or> is_ImportFrom n)"

section \<open>Helpers of merge_tests.py\<close>

definition get_leading_whitespace :: "string \<Rightarrow> string" where
  "get_leading_whitespace s = takeWhile isspace s"

text \<open>\<open>_reindent(snippet, base_indent_str)\<close>\<close>

definition reindent :: "string \<Rightarrow> string \<Rightarrow> string" where
  "reindent snippet base_indent_str =
     (let base_indent_str = (if strip base_indent_str \<noteq> [] then [] else base_indent_str);
          dedented_lines = splitlines (dedent snippet)
      in if \<not> list_ex (\<lambda>line. strip line \<noteq> []) dedented_lines \<and> dedented_lines \<noteq> []
         then replicate (length dedented_lines) LF
         else
           let reindented_lines =
                 map (\<lambda>line. if strip line \<noteq> [] then base_indent_str @ line else line)
                     dedented_lines;
               result = join [LF] reindented_lines
           in if result \<noteq> [] \<and> \<not> endswith result [LF] then result @ [LF] else result)"

text \<open>
  \<open>_index(tree)\<close>: the dumps of the imports, the classes by name and the top-level
  functions by name.  A dictionary is the association list of its items, the latest
  entry of a name first, and is read with \<^const>\<open>map_of\<close>.
\<close>

definition index_tree ::
  "stmt list \<Rightarrow> dump set \<times> (string \<times> stmt) list \<times> (string \<times> stmt) list" where
  "index_tree t =
     (set (map ast_dump (filter is_import t)),
      rev (map (\<lambda>n. (name n, n)) (filter is_ClassDef t)),
      rev (map (\<lambda>n. (name n, n)) (filter is_FunctionDef t)))"

text \<open>\<open>_splice(lines, pos_0based, payload)\<close>, returning the new list.\<close>

definition splice :: "string list \<Rightarrow> int \<Rightarrow> string list \<Rightarrow> string list" where
  "splice lns pos_0based payload =
     (let actual_pos = nat (max 0 (min pos_0based (int (length lns))))
      in take actual_pos lns @ payload @ drop actual_pos lns)"

text \<open>\<open>_last_import_line(tree)\<close>\<close>

definition last_import_line :: "stmt list \<Rightarrow> int" where
  "last_import_line t = fold (\<lambda>n e. if is_import n then max e (end_lineno n) else e) t 0"

text \<open>
  \<open>_get_node_source_segment_v2(src, node)\<close>: the whole lines of the node, from its first
  decorator when it is a decorated class or function, without trailing white space.
  \<open>source_segment\<close> is the part after the two line numbers are known;
  \<open>get_expr_source_segment_v2\<close> is the same function on a decorator expression.
\<close>

definition source_segment :: "string \<Rightarrow> int \<Rightarrow> int \<Rightarrow> string" where
  "source_segment src start_lineno end_ln =
     (let source_lines = splitlines_keepends src;
          segment = concat (py_slice source_lines (start_lineno - 1) end_ln)
      in if segment = [] then [] else rstrip segment)"

definition get_node_source_segment_v2 :: "string \<Rightarrow> stmt \<Rightarrow> string" where
  "get_node_source_segment_v2 src node =
     (let start_lineno =
            (if (is_FunctionDef node \<or> is_ClassDef node) \<and> decorator_list node \<noteq> []
             then e_lineno (hd (decorator_list node)) else lineno node)
      in source_segment src start_lineno (end_lineno node))"

definition get_expr_source_segment_v2 :: "string \<Rightarrow> expr \<Rightarrow> string" where
  "get_expr_source_segment_v2 src node = source_segment src (e_lineno node) (e_end_lineno node)"

section \<open>The Merger\<close>

text \<open>
  An exception is a value of \<open>error\<close> with its message.  A method of the Merger takes the
  object and returns the exception it raises, if any, with the object as the method leaves
  it, so that what a raising call has done to the line buffer can be stated.

  \<open>logged\<close> holds the records that the module's logger \<open>LOG\<close> receives at the levels
  WARNING and ERROR from the methods of the Merger and from \<open>merge_tests\<close>, latest last
  (DEBUG records and the records of the helper functions are left out).
\<close>

datatype error = ValueError string | SyntaxError string | NotImplementedError string

datatype log_record = LogWarning string | LogError string

record merger =
  lines :: "string list"
  tree :: "stmt list"
  cls_map :: "(string \<times> stmt) list"
  fn_map :: "(string \<times> stmt) list"
  logged :: "log_record list"

text \<open>The line that \<open>_refresh_index\<close> makes of a line of the buffer before joining.\<close>

definition processed_line :: "string \<Rightarrow> string" where
  "processed_line line_content =
     (if strip line_content \<noteq> [] \<and> \<not> endswith line_content [LF]
      then rstrip_crlf line_content @ [LF] else line_content)"

text \<open>\<open>Merger._refresh_index\<close>\<close>

definition refresh_index :: "parser \<Rightarrow> merger \<Rightarrow> error option \<times> merger" where
  "refresh_index P m =
     (if strip (concat (lines m)) = []
      then (None, m\<lparr>tree := [], cls_map := [], fn_map := []\<rparr>)
      else
        let joined = concat (map processed_line (lines m));
            current_source =
              (if \<not> endswith joined [LF] \<and> strip joined \<noteq> [] then joined @ [LF] else joined)
        in case P current_source of
             Inl msg \<Rightarrow>
               (Some (SyntaxError msg),
                m\<lparr>logged := logged m @
                   [LogError (''Syntax error while re-parsing source after modification: '' @ msg)]\<rparr>)
           | Inr t \<Rightarrow>
               (None,
                m\<lparr>tree := t,
                  cls_map := fst (snd (index_tree t)),
                  fn_map := snd (snd (index_tree t)),
                  lines := splitlines_keepends current_source\<rparr>))"

text \<open>\<open>Merger.__init__\<close>\<close>

definition Merger :: "parser \<Rightarrow> string \<Rightarrow> error option \<times> merger" where
  "Merger P base_src =
     (let lns = splitlines_keepends base_src;
          lns = (if lns \<noteq> [] \<and> last lns \<noteq> [] \<and> \<not> endswith (last lns) [LF]
                 then butlast lns @ [rstrip_crlf (last lns) @ [LF]]
                 else if lns = [] \<and> strip base_src \<noteq> [] then [rstrip_crlf base_src @ [LF]]
                 else if lns = [] \<and> strip base_src = [] then []
                 else lns)
      in refresh_index P \<lparr>lines = lns, tree = [], cls_map = [], fn_map = [], logged = []\<rparr>)"

text \<open>\<open>Merger.result\<close>\<close>

definition result :: "merger \<Rightarrow> string" where
  "result m = concat (lines m)"

text \<open>\<open>Merger._signatures_match(sig1, sig2)\<close>\<close>

definition signatures_match :: "arguments \<Rightarrow> arguments \<Rightarrow> bool \<times> string" where
  "signatures_match sig1 sig2 =
     (if a_posonlyargs sig1 \<noteq> a_posonlyargs sig2 then
        (False, ''Positional-only arguments differ: '' @ repr_list (a_posonlyargs sig1)
                  @ '' vs '' @ repr_list (a_posonlyargs sig2))
      else if a_args sig1 \<noteq> a_args sig2 then
        (False, ''Positional arguments differ: '' @ repr_list (a_args sig1)
                  @ '' vs '' @ repr_list (a_args sig2))
      else if a_vararg sig1 \<noteq> a_vararg sig2 then
        (False, ''*args differ: '' @ quote (str_opt (a_vararg sig1))
                  @ '' vs '' @ quote (str_opt (a_vararg sig2)))
      else if a_kwonlyargs sig1 \<noteq> a_kwonlyargs sig2 then
        (False, ''Keyword-only arguments differ: '' @ repr_list (a_kwonlyargs sig1)
                  @ '' vs '' @ repr_list (a_kwonlyargs sig2))
      else if a_kwarg sig1 \<noteq> a_kwarg sig2 then
        (False, ''**kwargs differ: '' @ quote (str_opt (a_kwarg sig1))
                  @ '' vs '' @ quote (str_opt (a_kwarg sig2)))
      else (True, []))"

text \<open>\<open>Merger.add_imports\<close>\<close>

definition add_imports :: "parser \<Rightarrow> string list \<Rightarrow> merger \<Rightarrow> error option \<times> merger" where
  "add_imports P imports m =
     (if imports = [] then (None, m)
      else refresh_index P (m\<lparr>lines := splice (lines m) (last_import_line (tree m)) imports\<rparr>))"

text \<open>\<open>Merger.add_class_or_func\<close>\<close>

definition add_class_or_func :: "parser \<Rightarrow> string \<Rightarrow> merger \<Rightarrow> error option \<times> merger" where
  "add_class_or_func P snippet m =
     (let clean_snippet =
            (if strip snippet \<noteq> [] \<and> \<not> endswith snippet [LF]
             then rstrip_crlf snippet @ [LF] else snippet);
          lns = lines m;
          no_prefix = (lns = [] \<or> strip (last lns) = [] \<or> endswith (last lns) [LF, LF]);
          prefix = (if no_prefix then [] else [LF]);
          lns = (if \<not> no_prefix \<and> \<not> endswith (last lns) [LF]
                 then butlast lns @ [rstrip_crlf (last lns) @ [LF]] else lns)
      in refresh_index P (m\<lparr>lines := splice lns (int (length lns)) [prefix @ clean_snippet]\<rparr>))"

text \<open>
  \<open>Merger.add_methods\<close>.  The branches on an \<open>end_lineno\<close> that is \<open>None\<close> cannot be
  taken: the parser sets every \<open>end_lineno\<close>.
\<close>

definition indent_unit :: "string \<Rightarrow> string" where
  "indent_unit indent = (if TAB \<notin> set indent then ''    '' else [TAB])"

definition add_methods :: "parser \<Rightarrow> string \<Rightarrow> string list \<Rightarrow> merger \<Rightarrow> error option \<times> merger" where
  "add_methods P class_name methods m =
     (case map_of (cls_map m) class_name of
        None \<Rightarrow>
          (None, m\<lparr>logged := logged m @
             [LogError (''Class '' @ class_name @ '' not found. Cannot add methods.'')]\<rparr>)
      | Some cls_node \<Rightarrow>
          let insertion_idx_0based =
                (if body cls_node \<noteq> [] then end_lineno (last (body cls_node))
                 else lineno cls_node);
              class_def_line_idx_0based = lineno cls_node - 1;
              class_indent_str =
                (if 0 \<le> class_def_line_idx_0based
                    \<and> class_def_line_idx_0based < int (length (lines m))
                 then get_leading_whitespace (lines m ! nat class_def_line_idx_0based)
                 else []);
              method_indent_str = class_indent_str @ indent_unit class_indent_str;
              prev_line_idx_0based = insertion_idx_0based - 1;
              in_range = (prev_line_idx_0based \<ge> 0
                          \<and> prev_line_idx_0based < int (length (lines m)));
              current_prev_line = lines m ! nat prev_line_idx_0based;
              lns = (if in_range \<and> strip current_prev_line \<noteq> []
                        \<and> \<not> endswith current_prev_line [LF]
                     then (lines m)[nat prev_line_idx_0based := rstrip_crlf current_prev_line @ [LF]]
                     else lines m);
              separator =
                (if in_range then (if strip current_prev_line \<noteq> [] then [[LF]] else [])
                 else if lines m \<noteq> [] then [[LF]] else []);
              payload = separator @ map (\<lambda>snip. reindent snip method_indent_str) methods
          in refresh_index P (m\<lparr>lines := splice lns insertion_idx_0based payload\<rparr>))"

subsection \<open>append_callable_body\<close>

text \<open>
  The method is written as the sequence of its blocks; each definition below is one
  block of the source, in the order of the source.
  Resolving the target (the \<open>next(...)\<close> over the class body is the first match).
\<close>

definition find_method :: "stmt \<Rightarrow> string \<Rightarrow> stmt option" where
  "find_method cls_node target_name =
     find (\<lambda>m. is_FunctionDef m \<and> name m = target_name) (body cls_node)"

definition resolve_target :: "merger \<Rightarrow> string \<Rightarrow> string option \<Rightarrow> error + stmt" where
  "resolve_target m target_name target_cls_name =
     (case target_cls_name of
        Some c \<Rightarrow>
          (case map_of (cls_map m) c of
             None \<Rightarrow> Inl (ValueError (''Target class '' @ quote c @ '' not found.''))
           | Some target_cls_node \<Rightarrow>
               (case find_method target_cls_node target_name of
                  None \<Rightarrow> Inl (ValueError (''Target method '' @ quote (c @ ''.'' @ target_name)
                                              @ '' not found.''))
                | Some t \<Rightarrow> Inr t))
      | None \<Rightarrow>
          (case map_of (fn_map m) target_name of
             None \<Rightarrow> Inl (ValueError (''Target function '' @ quote target_name @ '' not found.''))
           | Some t \<Rightarrow> Inr t))"

text \<open>Parsing the dedented new snippet: its first statement must be a function definition.\<close>

definition parse_new_callable :: "parser \<Rightarrow> string \<Rightarrow> string \<Rightarrow> error + stmt" where
  "parse_new_callable P target_name new_callable_snippet =
     (case P (dedent new_callable_snippet) of
        Inl msg \<Rightarrow> Inl (ValueError (''Syntax error in new snippet for '' @ quote target_name
                                    @ '': '' @ msg))
      | Inr new_body \<Rightarrow>
          if new_body = [] \<or> \<not> is_FunctionDef (hd new_body)
          then Inl (ValueError (''New snippet for '' @ quote target_name @ '' not a function def.''))
          else Inr (hd new_body))"

text \<open>One decorator of the new callable, put at the indentation of the target.\<close>

definition reconstructed_deco :: "string \<Rightarrow> string \<Rightarrow> string" where
  "reconstructed_deco actual_target_indent_str deco_expr_src =
     (let deco_lines = splitlines deco_expr_src;
          first_deco_line_text = (if deco_lines \<noteq> [] then lstrip (hd deco_lines) else [])
      in join [LF] ((actual_target_indent_str @ first_deco_line_text)
                    # map (\<lambda>line. actual_target_indent_str @ lstrip line) (tl deco_lines))
         @ [LF])"

definition target_deco_src_stripped :: "string list \<Rightarrow> stmt \<Rightarrow> string set" where
  "target_deco_src_stripped lns target_callable_node =
     set (map (\<lambda>d. strip (get_expr_source_segment_v2 (concat lns) d))
              (decorator_list target_callable_node))"

definition new_decos_payload :: "string list \<Rightarrow> stmt \<Rightarrow> string \<Rightarrow> stmt \<Rightarrow> string list" where
  "new_decos_payload lns target_callable_node dedented_new_snippet_str parsed_new_callable_node =
     (let actual_target_indent_str =
            get_leading_whitespace (lns ! nat (lineno target_callable_node - 1))
      in concat (map (\<lambda>deco_node.
           let deco_expr_src = get_expr_source_segment_v2 dedented_new_snippet_str deco_node
           in if deco_expr_src = [] then []
              else if strip deco_expr_src \<notin> target_deco_src_stripped lns target_callable_node
              then [reconstructed_deco actual_target_indent_str deco_expr_src]
              else [])
         (decorator_list parsed_new_callable_node)))"

text \<open>Resolving the target again, after the decorators were inserted.\<close>

definition resolve_target_after_deco :: "merger \<Rightarrow> string \<Rightarrow> string option \<Rightarrow> error + stmt" where
  "resolve_target_after_deco m target_name target_cls_name =
     (case target_cls_name of
        Some c \<Rightarrow>
          (case map_of (cls_map m) c of
             None \<Rightarrow> Inl (ValueError (''Target class '' @ quote c @ '' missing after deco update.''))
           | Some target_cls_node \<Rightarrow>
               (case find_method target_cls_node target_name of
                  None \<Rightarrow> Inl (ValueError (''Target method '' @ quote target_name
                                              @ '' missing after deco update.''))
                | Some t \<Rightarrow> Inr t))
      | None \<Rightarrow>
          (case map_of (fn_map m) target_name of
             None \<Rightarrow> Inl (ValueError (''Target function '' @ quote target_name
                                         @ '' missing after deco update.''))
           | Some t \<Rightarrow> Inr t))"

text \<open>
  The decorator block: the check of the definition line, the decorators to insert, the
  splice at \<open>lineno - 1\<close> and the new index.  It returns the target node to go on with.
\<close>

definition merge_decorators ::
  "parser \<Rightarrow> string \<Rightarrow> string option \<Rightarrow> string \<Rightarrow> stmt \<Rightarrow> stmt \<Rightarrow> merger
     \<Rightarrow> (error + stmt) \<times> merger" where
  "merge_decorators P target_name target_cls_name dedented_new_snippet_str
       parsed_new_callable_node target_callable_node m =
     (let decorator_splice_idx_0based = lineno target_callable_node - 1
      in if \<not> (0 \<le> decorator_splice_idx_0based
                \<and> decorator_splice_idx_0based < int (length (lines m)))
         then (Inl (ValueError (''Target '' @ quote target_name @ '' lineno ''
                      @ str_int (lineno target_callable_node) @ '' out of bounds for file len ''
                      @ str_int (int (length (lines m))) @ ''.'')), m)
         else
           let line_content_at_splice_idx = lines m ! nat decorator_splice_idx_0based;
               stripped_line_content = lstrip line_content_at_splice_idx
           in if \<not> (startswith stripped_line_content ''def ''
                     \<or> startswith stripped_line_content ''@'')
              then (Inl (ValueError (''AST lineno for '' @ quote target_name @ '' (line ''
                           @ str_int (lineno target_callable_node)
                           @ '') does not point to its definition. Cannot reliably insert decorators.'')),
                    m\<lparr>logged := logged m @ [LogError
                       (''AST lineno for target callable '' @ quote target_name
                        @ '' seems incorrect. Expected '' @ quote ''def'' @ '' or '' @ quote ''@''
                        @ '' at line '' @ str_int (lineno target_callable_node)
                        @ '' (0-idx '' @ str_int decorator_splice_idx_0based @ ''), but found: ''
                        @ quote (strip line_content_at_splice_idx) @ ''. Node details: lineno=''
                        @ str_int (lineno target_callable_node) @ '', end_lineno=''
                        @ str_int (end_lineno target_callable_node) @ '', col_offset=''
                        @ str_int (col_offset target_callable_node) @ ''.'')]\<rparr>)
              else
                let payload = new_decos_payload (lines m) target_callable_node
                                dedented_new_snippet_str parsed_new_callable_node
                in if payload = [] then (Inr target_callable_node, m)
                   else
                     (case refresh_index P
                             (m\<lparr>lines := splice (lines m) decorator_splice_idx_0based payload\<rparr>) of
                        (Some e, m') \<Rightarrow> (Inl e, m')
                      | (None, m') \<Rightarrow>
                          (case resolve_target_after_deco m' target_name target_cls_name of
                             Inl e \<Rightarrow> (Inl e, m')
                           | Inr t \<Rightarrow> (Inr t, m'))))"

text \<open>
  The body block.  \<open>new_body_text\<close> is \<open>body_to_append_str\<close>: the whole lines of the
  dedented snippet from the line of the first statement of the new callable to the last
  line of its last statement.
\<close>

definition new_body_text :: "string \<Rightarrow> stmt \<Rightarrow> string" where
  "new_body_text dedented_new_snippet_str parsed_new_callable_node =
     (if body parsed_new_callable_node \<noteq> [] then
        let first_stmt = hd (body parsed_new_callable_node);
            last_stmt = last (body parsed_new_callable_node);
            all_dedented_lines = splitlines_keepends dedented_new_snippet_str
        in concat (py_slice all_dedented_lines (lineno first_stmt - 1) (end_lineno last_stmt))
      else [])"

definition body_splice_idx :: "stmt \<Rightarrow> int" where
  "body_splice_idx target_callable_node =
     (if body target_callable_node \<noteq> [] then end_lineno (last (body target_callable_node))
      else lineno target_callable_node)"

definition def_indent :: "string list \<Rightarrow> stmt \<Rightarrow> string" where
  "def_indent lns target_callable_node =
     (let def_idx_0based = lineno target_callable_node - 1
      in if 0 \<le> def_idx_0based \<and> def_idx_0based < int (length lns)
         then get_leading_whitespace (lns ! nat def_idx_0based) else [])"

definition body_indent_str :: "string list \<Rightarrow> stmt \<Rightarrow> string" where
  "body_indent_str lns target_callable_node =
     (let one_level = def_indent lns target_callable_node
                        @ indent_unit (def_indent lns target_callable_node)
      in if body target_callable_node \<noteq> [] then
           let first_target_stmt_line_idx_0based = lineno (hd (body target_callable_node)) - 1
           in if 0 \<le> first_target_stmt_line_idx_0based
                 \<and> first_target_stmt_line_idx_0based < int (length lns)
              then
                let first_line = lns ! nat first_target_stmt_line_idx_0based
                in if get_leading_whitespace first_line = [] \<and> strip first_line \<noteq> []
                   then one_level else get_leading_whitespace first_line
              else one_level
         else one_level)"

text \<open>
  The separator before the appended body: a blank line, unless the line before the place
  of the insertion is there and is blank.
\<close>

definition prefix_for_body :: "string list \<Rightarrow> stmt \<Rightarrow> string" where
  "prefix_for_body lns target_callable_node =
     (let prev_body_splice_line_idx_0based = body_splice_idx target_callable_node - 1
      in if prev_body_splice_line_idx_0based \<ge> 0
            \<and> prev_body_splice_line_idx_0based < int (length lns)
            \<and> strip (lns ! nat prev_body_splice_line_idx_0based) = []
         then [] else [LF])"

definition append_body :: "parser \<Rightarrow> string \<Rightarrow> stmt \<Rightarrow> stmt \<Rightarrow> merger \<Rightarrow> error option \<times> merger" where
  "append_body P dedented_new_snippet_str parsed_new_callable_node target_callable_node m =
     (let body_to_append_str = new_body_text dedented_new_snippet_str parsed_new_callable_node
      in if strip body_to_append_str = [] then (None, m)
         else
           let body_splice_idx_0based = body_splice_idx target_callable_node;
               reindented_body =
                 reindent body_to_append_str (body_indent_str (lines m) target_callable_node);
               prev_body_splice_line_idx_0based = body_splice_idx_0based - 1;
               in_range = (prev_body_splice_line_idx_0based \<ge> 0
                           \<and> prev_body_splice_line_idx_0based < int (length (lines m)));
               current_prev_line = lines m ! nat prev_body_splice_line_idx_0based;
               lns = (if in_range \<and> strip current_prev_line \<noteq> []
                         \<and> \<not> endswith current_prev_line [LF]
                      then (lines m)[nat prev_body_splice_line_idx_0based :=
                                       rstrip_crlf current_prev_line @ [LF]]
                      else lines m)
           in refresh_index P
                (m\<lparr>lines := splice lns body_splice_idx_0based
                                [prefix_for_body (lines m) target_callable_node
                                 @ reindented_body]\<rparr>))"

text \<open>\<open>Merger.append_callable_body(target_name, new_callable_snippet, target_cls_name)\<close>\<close>

definition append_callable_body ::
  "parser \<Rightarrow> string \<Rightarrow> string \<Rightarrow> string option \<Rightarrow> merger \<Rightarrow> error option \<times> merger" where
  "append_callable_body P target_name new_callable_snippet target_cls_name m =
     (case resolve_target m target_name target_cls_name of
        Inl e \<Rightarrow> (Some e, m)
      | Inr target_callable_node \<Rightarrow>
          (case parse_new_callable P target_name new_callable_snippet of
             Inl e \<Rightarrow> (Some e, m)
           | Inr parsed_new_callable_node \<Rightarrow>
               (case signatures_match (args parsed_new_callable_node) (args target_callable_node) of
                  (False, reason) \<Rightarrow>
                    (Some (ValueError (''Signatures differ for '' @ quote target_name @ '': ''
                                       @ reason)), m)
                | (True, reason) \<Rightarrow>
                    (case merge_decorators P target_name target_cls_name
                            (dedent new_callable_snippet) parsed_new_callable_node
                            target_callable_node m of
                       (Inl e, m') \<Rightarrow> (Some e, m')
                     | (Inr target_callable_node', m') \<Rightarrow>
                         append_body P (dedent new_callable_snippet) parsed_new_callable_node
                           target_callable_node' m'))))"

section \<open>ExtractedFunction\<close>

text \<open>
  \<open>approach/utils/test_extractor.py\<close>.  A field holds what the callers store in it;
  \<open>merge_tests\<close> in ADD mode stores a node in \<open>func_name\<close>, so a value of that field is a
  string or a node.  The built-in \<open>hash\<close> of the pair \<open>(class_name, func_name)\<close> is a
  parameter \<open>H\<close> of the model.  (Python hashes a node by its identity; two function nodes
  of one tree that are equal as values here start at the same place, so are one node.)
\<close>

datatype pyval = PStr string | PNode stmt

record ExtractedFunction =
  class_name :: "string option"
  func_name :: pyval
  func_def :: "string option"
  file_path :: "string option"

type_synonym hasher = "string option \<times> pyval \<Rightarrow> int"

text \<open>\<open>ExtractedFunction.__hash__\<close>\<close>

definition ef_hash :: "hasher \<Rightarrow> ExtractedFunction \<Rightarrow> int" where
  "ef_hash H self = H (class_name self, func_name self)"

text \<open>\<open>ExtractedFunction.__eq__\<close>, for another \<open>ExtractedFunction\<close>\<close>

definition ef_eq :: "hasher \<Rightarrow> ExtractedFunction \<Rightarrow> ExtractedFunction \<Rightarrow> bool" where
  "ef_eq H self other = (ef_hash H self = ef_hash H other)"

text \<open>
  A Python set of \<open>ExtractedFunction\<close> values is the list of its elements in the order of
  their insertion: \<open>set.add\<close> keeps the set when it holds an equal element, and
  \<open>set.update\<close> adds the elements one after the other.
\<close>

definition set_add :: "hasher \<Rightarrow> ExtractedFunction \<Rightarrow> ExtractedFunction list \<Rightarrow> ExtractedFunction list" where
  "set_add H e s = (if list_ex (\<lambda>x. ef_eq H x e) s then s else s @ [e])"

definition set_update :: "hasher \<Rightarrow> ExtractedFunction list \<Rightarrow> ExtractedFunction list \<Rightarrow> ExtractedFunction list" where
  "set_update H es s = fold (set_add H) es s"

section \<open>merge_tests\<close>

text \<open>
  The local variables of \<open>merge_tests\<close>.  The three \<open>pending\<close> dictionaries are association
  lists in the order in which their keys were inserted, the order in which \<open>items()\<close>
  yields them.  The mapping argument is \<open>None\<close> or the association list of a dictionary.
\<close>

record walk_state =
  merger :: merger
  merged_test_funcs :: "ExtractedFunction list"
  base_imps_dump_initial :: "dump set"
  new_imports_to_add :: "string list"
  pending_methods_for_add :: "(string \<times> (stmt \<times> string) list) list"
  pending_methods_for_append :: "(string \<times> (stmt \<times> string) list) list"
  pending_functions_for_append :: "(string \<times> string) list"

text \<open>\<open>d.setdefault(k, []).extend(vs)\<close>\<close>

fun setdefault_extend :: "'k \<Rightarrow> 'v list \<Rightarrow> ('k \<times> 'v list) list \<Rightarrow> ('k \<times> 'v list) list" where
  "setdefault_extend k vs [] = [(k, vs)]"
| "setdefault_extend k vs ((k', vs') # d) =
     (if k = k' then (k', vs' @ vs) # d else (k', vs') # setdefault_extend k vs d)"

text \<open>\<open>d[k] = v\<close>\<close>

fun setitem :: "'k \<Rightarrow> 'v \<Rightarrow> ('k \<times> 'v) list \<Rightarrow> ('k \<times> 'v) list" where
  "setitem k v [] = [(k, v)]"
| "setitem k v ((k', v') # d) =
     (if k = k' then (k', v) # d else (k', v') # setitem k v d)"

text \<open>A snippet that holds code ends with a line feed.\<close>

definition with_newline :: "string \<Rightarrow> string" where
  "with_newline snippet =
     (if strip snippet \<noteq> [] \<and> \<not> endswith snippet [LF] then rstrip_crlf snippet @ [LF]
      else snippet)"

definition methods_in_new_class :: "string \<Rightarrow> stmt \<Rightarrow> (stmt \<times> string) list" where
  "methods_in_new_class new_src node =
     concat (map (\<lambda>m_node.
        if is_FunctionDef m_node then
          (let method_snippet = get_node_source_segment_v2 new_src m_node
           in if method_snippet \<noteq> [] then [(m_node, with_newline method_snippet)] else [])
        else [])
      (body node))"

text \<open>One round of the loop over the top-level statements of the new unit.\<close>

definition walk_node ::
  "parser \<Rightarrow> hasher \<Rightarrow> string \<Rightarrow> string \<Rightarrow> stmt \<Rightarrow> walk_state \<Rightarrow> error option \<times> walk_state" where
  "walk_node P H mode new_src node w =
     (if get_node_source_segment_v2 new_src node = [] then (None, w)
      else
        let node_full_snippet = with_newline (get_node_source_segment_v2 new_src node)
        in if is_import node then
             (if ast_dump node \<notin> base_imps_dump_initial w
              then (None, w\<lparr>new_imports_to_add := new_imports_to_add w @ [node_full_snippet],
                              base_imps_dump_initial :=
                                insert (ast_dump node) (base_imps_dump_initial w)\<rparr>)
              else (None, w))
           else if is_ClassDef node then
             (if mode = ''ADD'' then
                (if map_of (cls_map (merger w)) (name node) = None then
                   (case add_class_or_func P node_full_snippet (merger w) of
                      (Some e, m') \<Rightarrow> (Some e, w\<lparr>merger := m'\<rparr>)
                    | (None, m') \<Rightarrow>
                        (None, w\<lparr>merger := m',
                           merged_test_funcs := set_update H
                             (map (\<lambda>(m_node, method_snippet).
                                     \<lparr>class_name = Some (name node),
                                      func_name = PStr (name m_node),
                                      func_def = Some method_snippet, file_path = None\<rparr>)
                                  (filter (\<lambda>(m_node, method_snippet).
                                             startswith (name m_node) ''test_'')
                                          (methods_in_new_class new_src node)))
                             (merged_test_funcs w)\<rparr>))
                 else (None, w\<lparr>pending_methods_for_add :=
                         setdefault_extend (name node) (methods_in_new_class new_src node)
                           (pending_methods_for_add w)\<rparr>))
              else if mode = ''APPEND'' then
                (None, w\<lparr>pending_methods_for_append :=
                   setdefault_extend (name node) (methods_in_new_class new_src node)
                     (pending_methods_for_append w)\<rparr>)
              else (None, w))
           else if is_FunctionDef node then
             (if mode = ''ADD'' then
                (if map_of (fn_map (merger w)) (name node) = None then
                   (case add_class_or_func P node_full_snippet (merger w) of
                      (Some e, m') \<Rightarrow> (Some e, w\<lparr>merger := m'\<rparr>)
                    | (None, m') \<Rightarrow>
                        (None, w\<lparr>merger := m',
                           merged_test_funcs := set_add H
                             \<lparr>class_name = None, func_name = PStr (name node),
                              func_def = Some node_full_snippet, file_path = None\<rparr>
                             (merged_test_funcs w)\<rparr>))
                 else (None, w))
              else if mode = ''APPEND'' then
                (None, w\<lparr>pending_functions_for_append :=
                   setitem (name node) node_full_snippet (pending_functions_for_append w)\<rparr>)
              else (None, w))
           else (None, w))"

text \<open>The loop \<open>for node in new_tree.body\<close>; an exception ends it.\<close>

fun walk ::
  "parser \<Rightarrow> hasher \<Rightarrow> string \<Rightarrow> string \<Rightarrow> stmt list \<Rightarrow> walk_state \<Rightarrow> error option \<times> walk_state" where
  "walk P H mode new_src [] w = (None, w)"
| "walk P H mode new_src (node # nodes) w =
     (case walk_node P H mode new_src node w of
        (Some e, w') \<Rightarrow> (Some e, w')
      | (None, w') \<Rightarrow> walk P H mode new_src nodes w')"

text \<open>
  \<open>merge_tests\<close> up to the end of that loop: the Merger of the base text, the parse of the
  new unit, the dumps of the imports of the base, the loop.  \<open>mode\<close> is already in upper case.
\<close>

definition initial_walk_state :: "merger \<Rightarrow> walk_state" where
  "initial_walk_state m =
     \<lparr>merger = m, merged_test_funcs = [],
      base_imps_dump_initial = set (map ast_dump (filter is_import (tree m))),
      new_imports_to_add = [], pending_methods_for_add = [],
      pending_methods_for_append = [], pending_functions_for_append = []\<rparr>"

definition merge_walk ::
  "parser \<Rightarrow> hasher \<Rightarrow> string \<Rightarrow> string \<Rightarrow> string \<Rightarrow> error option \<times> walk_state" where
  "merge_walk P H mode new_src base_src =
     (case Merger P base_src of
        (Some e, m) \<Rightarrow> (Some e, initial_walk_state m)
      | (None, m) \<Rightarrow>
          (case P new_src of
             Inl msg \<Rightarrow> (Some (ValueError (''Invalid syntax in new_src: '' @ msg)),
                          initial_walk_state m)
           | Inr new_tree \<Rightarrow> walk P H mode new_src new_tree (initial_walk_state m)))"

text \<open>\<open>if new_imports_to_add: merger.add_imports(new_imports_to_add)\<close>\<close>

definition merge_imports :: "parser \<Rightarrow> walk_state \<Rightarrow> error option \<times> walk_state" where
  "merge_imports P w =
     (if new_imports_to_add w \<noteq> [] then
        (case add_imports P (new_imports_to_add w) (merger w) of
           (e, m') \<Rightarrow> (e, w\<lparr>merger := m'\<rparr>))
      else (None, w))"

subsection \<open>ADD mode: the methods of classes that exist\<close>

text \<open>
  In \<open>for name, s in new_methods\<close> the variable \<open>name\<close> is bound to the first component of
  a pair of \<open>methods_in_new_class\<close>, the node of the method; \<open>existing_meth_names\<close> is a
  set of strings.  The test \<open>name not in existing_meth_names\<close> is written as the source
  has it, on values that are a string or a node.
\<close>

definition existing_meth_names :: "stmt \<Rightarrow> pyval set" where
  "existing_meth_names cls_node = set (map (\<lambda>m. PStr (name m)) (filter is_FunctionDef (body cls_node)))"

definition add_pending_class ::
  "parser \<Rightarrow> hasher \<Rightarrow> string \<times> (stmt \<times> string) list \<Rightarrow> walk_state
     \<Rightarrow> error option \<times> walk_state" where
  "add_pending_class P H item w =
     (case item of (cls_name, new_methods) \<Rightarrow>
        (case map_of (cls_map (merger w)) cls_name of
           None \<Rightarrow> (None, w)
         | Some cls_node \<Rightarrow>
             let to_add =
                   filter (\<lambda>(name, s). PNode name \<notin> existing_meth_names cls_node) new_methods;
                 to_add_snippets = map snd to_add
             in if to_add_snippets \<noteq> [] then
                  (case add_methods P cls_name to_add_snippets (merger w) of
                     (Some e, m') \<Rightarrow> (Some e, w\<lparr>merger := m'\<rparr>)
                   | (None, m') \<Rightarrow>
                       (None, w\<lparr>merger := m',
                          merged_test_funcs := set_update H
                            (map (\<lambda>(name, method_snippet).
                                    \<lparr>class_name = Some cls_name, func_name = PNode name,
                                     func_def = Some method_snippet, file_path = None\<rparr>)
                                 to_add)
                            (merged_test_funcs w)\<rparr>))
                else (None, w)))"

fun add_pending_methods ::
  "parser \<Rightarrow> hasher \<Rightarrow> (string \<times> (stmt \<times> string) list) list \<Rightarrow> walk_state
     \<Rightarrow> error option \<times> walk_state" where
  "add_pending_methods P H [] w = (None, w)"
| "add_pending_methods P H (item # items) w =
     (case add_pending_class P H item w of
        (Some e, w') \<Rightarrow> (Some e, w')
      | (None, w') \<Rightarrow> add_pending_methods P H items w')"

subsection \<open>APPEND mode\<close>

text \<open>
  \<open>tgt_cls, tgt_meth = target_fq.split(".", 1)\<close> with the test that neither part is
  empty; \<open>None\<close> is the \<open>ValueError\<close> that the \<open>except\<close> clause turns into a warning.
\<close>

definition split_cls_meth :: "string \<Rightarrow> (string \<times> string) option" where
  "split_cls_meth target_fq =
     (if CHR ''.'' \<notin> set target_fq then None
      else
        let tgt_cls = takeWhile (\<lambda>c. c \<noteq> CHR ''.'') target_fq;
            tgt_meth = tl (dropWhile (\<lambda>c. c \<noteq> CHR ''.'') target_fq)
        in if tgt_cls = [] \<or> tgt_meth = [] then None else Some (tgt_cls, tgt_meth))"

definition warn :: "string \<Rightarrow> walk_state \<Rightarrow> walk_state" where
  "warn msg w = w\<lparr>merger := (merger w)\<lparr>logged := logged (merger w) @ [LogWarning msg]\<rparr>\<rparr>"

definition log_error :: "string \<Rightarrow> merger \<Rightarrow> merger" where
  "log_error msg m = m\<lparr>logged := logged m @ [LogError msg]\<rparr>"

text \<open>The message of an exception, as \<open>{e}\<close> prints it.\<close>

fun str_error :: "error \<Rightarrow> string" where
  "str_error (ValueError msg) = msg"
| "str_error (SyntaxError msg) = msg"
| "str_error (NotImplementedError msg) = msg"

text \<open>
  After a raising \<open>append_callable_body\<close>: \<open>except ValueError\<close> logs and raises again; any
  other exception passes unlogged.
\<close>

definition reraise :: "string \<Rightarrow> error \<Rightarrow> merger \<Rightarrow> merger" where
  "reraise what e m =
     (case e of ValueError msg \<Rightarrow> log_error (what @ '': '' @ msg) m | _ \<Rightarrow> m)"

text \<open>One method of the new unit: one round of the inner loop over \<open>meth_list\<close>.\<close>

definition append_method ::
  "parser \<Rightarrow> hasher \<Rightarrow> (string \<times> string) list \<Rightarrow> string \<Rightarrow> stmt \<times> string \<Rightarrow> walk_state
     \<Rightarrow> error option \<times> walk_state" where
  "append_method P H mapping src_cls item w =
     (case item of (src_meth, new_snip) \<Rightarrow>
        let fq_new = src_cls @ ''.'' @ name src_meth
        in case map_of mapping fq_new of
             None \<Rightarrow> (None, warn (''No map for method '' @ quote fq_new @ ''. Skip.'') w)
           | Some target_fq \<Rightarrow>
               (case split_cls_meth target_fq of
                  None \<Rightarrow>
                    (None, warn (''Target '' @ quote target_fq @ '' for '' @ quote fq_new
                                 @ '' not '' @ quote ''Cls.meth'' @ ''. Skip.'') w)
                | Some (tgt_cls, tgt_meth) \<Rightarrow>
                    (case append_callable_body P tgt_meth new_snip (Some tgt_cls) (merger w) of
                       (Some e, m') \<Rightarrow>
                         (Some e, w\<lparr>merger :=
                            reraise (''Fail append '' @ fq_new @ '' to '' @ target_fq) e m'\<rparr>)
                     | (None, m') \<Rightarrow>
                         (None, w\<lparr>merger := m',
                            merged_test_funcs := set_add H
                              \<lparr>class_name = Some tgt_cls, func_name = PStr tgt_meth,
                               func_def = None, file_path = None\<rparr>
                              (merged_test_funcs w)\<rparr>))))"

fun append_meth_list ::
  "parser \<Rightarrow> hasher \<Rightarrow> (string \<times> string) list \<Rightarrow> string \<Rightarrow> (stmt \<times> string) list \<Rightarrow> walk_state
     \<Rightarrow> error option \<times> walk_state" where
  "append_meth_list P H mapping src_cls [] w = (None, w)"
| "append_meth_list P H mapping src_cls (item # meth_list) w =
     (case append_method P H mapping src_cls item w of
        (Some e, w') \<Rightarrow> (Some e, w')
      | (None, w') \<Rightarrow> append_meth_list P H mapping src_cls meth_list w')"

fun append_pending_methods ::
  "parser \<Rightarrow> hasher \<Rightarrow> (string \<times> string) list \<Rightarrow> (string \<times> (stmt \<times> string) list) list
     \<Rightarrow> walk_state \<Rightarrow> error option \<times> walk_state" where
  "append_pending_methods P H mapping [] w = (None, w)"
| "append_pending_methods P H mapping ((src_cls, meth_list) # items) w =
     (case append_meth_list P H mapping src_cls meth_list w of
        (Some e, w') \<Rightarrow> (Some e, w')
      | (None, w') \<Rightarrow> append_pending_methods P H mapping items w')"

text \<open>One top-level function of the new unit.\<close>

definition append_function ::
  "parser \<Rightarrow> hasher \<Rightarrow> (string \<times> string) list \<Rightarrow> string \<times> string \<Rightarrow> walk_state
     \<Rightarrow> error option \<times> walk_state" where
  "append_function P H mapping item w =
     (case item of (src_func, new_snip) \<Rightarrow>
        (case map_of mapping src_func of
           None \<Rightarrow> (None, warn (''No map for func '' @ quote src_func @ ''. Skip.'') w)
         | Some target_func \<Rightarrow>
             if CHR ''.'' \<in> set target_func then
               (None, warn (''Map for func '' @ quote src_func @ '' -> '' @ quote target_func
                            @ '' (method?). Skip.'') w)
             else
               (case append_callable_body P target_func new_snip None (merger w) of
                  (Some e, m') \<Rightarrow>
                    (Some e, w\<lparr>merger :=
                       reraise (''Fail append func '' @ quote src_func @ '' to ''
                                @ quote target_func) e m'\<rparr>)
                | (None, m') \<Rightarrow>
                    (None, w\<lparr>merger := m',
                       merged_test_funcs := set_add H
                         \<lparr>class_name = None, func_name = PStr target_func,
                          func_def = None, file_path = None\<rparr>
                         (merged_test_funcs w)\<rparr>))))"

fun append_pending_functions ::
  "parser \<Rightarrow> hasher \<Rightarrow> (string \<times> string) list \<Rightarrow> (string \<times> string) list \<Rightarrow> walk_state
     \<Rightarrow> error option \<times> walk_state" where
  "append_pending_functions P H mapping [] w = (None, w)"
| "append_pending_functions P H mapping (item # items) w =
     (case append_function P H mapping item w of
        (Some e, w') \<Rightarrow> (Some e, w')
      | (None, w') \<Rightarrow> append_pending_functions P H mapping items w')"

text \<open>
  The branch on the mode, after the imports were inserted.  \<open>not mapping\<close> holds of
  \<open>None\<close> and of the empty dictionary.
\<close>

definition merge_mode ::
  "parser \<Rightarrow> hasher \<Rightarrow> string \<Rightarrow> (string \<times> string) list option \<Rightarrow> walk_state
     \<Rightarrow> error option \<times> walk_state" where
  "merge_mode P H mode mapping w =
     (if mode = ''ADD'' then add_pending_methods P H (pending_methods_for_add w) w
      else if mode = ''APPEND'' then
        (case mapping of
           None \<Rightarrow> (Some (ValueError ''--map is required in APPEND mode.''), w)
         | Some d \<Rightarrow>
             if d = [] then (Some (ValueError ''--map is required in APPEND mode.''), w)
             else
               (case append_pending_methods P H d (pending_methods_for_append w) w of
                  (Some e, w') \<Rightarrow> (Some e, w')
                | (None, w') \<Rightarrow>
                    append_pending_functions P H d (pending_functions_for_append w') w'))
      else if mode = ''FOLD'' then (Some (NotImplementedError ''FOLD mode not implemented yet''), w)
      else (Some (ValueError (''Unknown test merge mode: '' @ mode)), w))"

text \<open>
  The whole run of \<open>merge_tests\<close>, with the local variables as the call leaves them, and
  \<open>merge_tests\<close> itself: the exception, or the merged text and the merged callables.
  \<open>merge_log\<close> is what the call has logged.
\<close>

definition merge_run ::
  "parser \<Rightarrow> hasher \<Rightarrow> string \<Rightarrow> string \<Rightarrow> string \<Rightarrow> (string \<times> string) list option
     \<Rightarrow> error option \<times> walk_state" where
  "merge_run P H new_src base_src mode mapping =
     (case merge_walk P H (upper mode) new_src base_src of
        (Some e, w) \<Rightarrow> (Some e, w)
      | (None, w) \<Rightarrow>
          (case merge_imports P w of
             (Some e, w') \<Rightarrow> (Some e, w')
           | (None, w') \<Rightarrow> merge_mode P H (upper mode) mapping w'))"

definition merge_tests ::
  "parser \<Rightarrow> hasher \<Rightarrow> string \<Rightarrow> string \<Rightarrow> string \<Rightarrow> (string \<times> string) list option
     \<Rightarrow> error + string \<times> ExtractedFunction list" where
  "merge_tests P H new_src base_src mode mapping =
     (case merge_run P H new_src base_src mode mapping of
        (Some e, w) \<Rightarrow> Inl e
      | (None, w) \<Rightarrow> Inr (result (merger w), merged_test_funcs w))"


section \<open>The notions of the specification\<close>

text \<open>
  The definitions of this section are not functions of the program.  They say what the
  specification means by the body text of a callable, by a callable written as a block,
  and by the expression of a decorator, so that the properties of APPEND can be stated
  and compared with what the program does.
\<close>

text \<open>
  The body text of a callable in a list of lines: the whole lines from the line of its
  first statement to the last line of its last statement.
\<close>

definition body_text_of :: "string list \<Rightarrow> stmt \<Rightarrow> string" where
  "body_text_of lns callable =
     concat (py_slice lns (lineno (hd (body callable)) - 1) (end_lineno (last (body callable))))"

text \<open>
  A callable is written as a block in a list of lines when it has a body whose lines are
  lines of the list below the line of the \<open>def\<close>, and its first statement is indented and
  begins its line: the bytes before the statement are the leading white space of the
  line.  Then the lines of the body hold no part of the signature.
\<close>

definition block_form :: "string list \<Rightarrow> stmt \<Rightarrow> bool" where
  "block_form lns callable =
     (body callable \<noteq> []
      \<and> 1 \<le> lineno callable
      \<and> lineno callable < lineno (hd (body callable))
      \<and> lineno (hd (body callable)) \<le> end_lineno (last (body callable))
      \<and> end_lineno (last (body callable)) \<le> int (length lns)
      \<and> (let first_line = lns ! nat (lineno (hd (body callable)) - 1)
         in byte_take (nat (col_offset (hd (body callable)))) first_line
              = get_leading_whitespace first_line
            \<and> get_leading_whitespace first_line \<noteq> []
            \<and> strip first_line \<noteq> []))"

text \<open>The indentation of the body of a callable: that of the line of its first statement.\<close>

definition body_indentation :: "string list \<Rightarrow> stmt \<Rightarrow> string" where
  "body_indentation lns callable =
     get_leading_whitespace (lns ! nat (lineno (hd (body callable)) - 1))"

text \<open>
  The separator that the rule of the blank line puts after a body: a blank line, or
  nothing when the last line of the body is blank.
\<close>

definition separator_after :: "string list \<Rightarrow> stmt \<Rightarrow> string" where
  "separator_after lns callable =
     (if strip (lns ! nat (end_lineno (last (body callable)) - 1)) = [] then [] else [LF])"

text \<open>
  Where the parser finds a body after a change of the text: the body of \<open>callable'\<close>
  begins \<open>down\<close> lines below the line where the body of \<open>callable\<close> began, and has
  \<open>longer\<close> lines more.
\<close>

definition body_moved :: "stmt \<Rightarrow> stmt \<Rightarrow> int \<Rightarrow> int \<Rightarrow> bool" where
  "body_moved callable callable' down longer =
     (body callable' \<noteq> []
      \<and> lineno (hd (body callable')) = lineno (hd (body callable)) + down
      \<and> end_lineno (last (body callable')) = end_lineno (last (body callable)) + down + longer)"

text \<open>
  A line of a buffer as the constructor of the Merger makes it from a text file: it ends
  with a line feed, alone or after a carriage return, and holds no other character that
  ends a line.
\<close>

definition is_line :: "string \<Rightarrow> bool" where
  "is_line l = (endswith l [LF] \<and> list_all (\<lambda>c. \<not> is_linebreak c) (chop_linebreak l))"

text \<open>A text whose only line break is the line feed.\<close>

definition only_lf :: "string \<Rightarrow> bool" where
  "only_lf s = (\<forall>c\<in>set s. is_linebreak c \<longrightarrow> c = LF)"

text \<open>
  The expression of a decorator: the text of the source from the place where the
  expression begins to the place where it ends, which is \<open>ast.get_source_segment\<close> of the
  standard library (empty here when the lines of the node are not lines of the source).
\<close>

definition decorator_expression :: "string \<Rightarrow> expr \<Rightarrow> string" where
  "decorator_expression src d =
     (let lns = source_lines src;
          first = nat (e_lineno d - 1);
          final = nat (e_end_lineno d - 1);
          col = nat (e_col_offset d);
          end_col = nat (e_end_col_offset d)
      in if e_lineno d < 1 \<or> e_end_lineno d < e_lineno d \<or> int (length lns) < e_end_lineno d
         then []
         else if final = first then byte_take (end_col - col) (byte_drop col (lns ! first))
         else byte_drop col (lns ! first)
              @ concat (take (final - first - 1) (drop (first + 1) lns))
              @ byte_take end_col (lns ! final))"

text \<open>
  A decorator stands alone on its lines when these hold, after blanks and tabs, the sign
  \<open>@\<close> and the expression, and then nothing but white space: no comment follows the
  expression and nothing stands between \<open>@\<close> and the expression.
\<close>

definition stands_alone :: "string \<Rightarrow> expr \<Rightarrow> bool" where
  "stands_alone src d =
     (dropWhile blank_or_tab (get_expr_source_segment_v2 src d)
        = CHR ''@'' # strip (decorator_expression src d))"

section \<open>Example inputs\<close>

text \<open>
  The closed theorems below run the program on small sources.  An example parser is
  \<open>ast.parse\<close> on the texts it lists, with the trees CPython 3.12 builds for them (the
  \<open>lineno\<close> of a decorated function is the line of its \<open>def\<close>), and a syntax error on
  every other text.  \<open>example_hash\<close> stands for the built-in hash in the examples.
\<close>

definition example_hash :: hasher where
  "example_hash p =
     (case p of (c, f) \<Rightarrow>
        int (length (case c of None \<Rightarrow> [] | Some s \<Rightarrow> s)) * 1000
        + (case f of PStr s \<Rightarrow> int (length s) | PNode n \<Rightarrow> lineno n))"

text \<open>
  A method \<open>Test.case(self, a)\<close> and the snippet of a new method \<open>case(self, b)\<close>, as
  \<open>merge_tests\<close> cuts it from a class of the new unit.
\<close>

definition sig_base :: string where
  "sig_base = ''class Test:\<newline>    def case(self, a):\<newline>        pass\<newline>''"

definition sig_snippet :: string where
  "sig_snippet = ''    def case(self, b):\<newline>        pass\<newline>''"

definition sig_parser :: parser where
  "sig_parser s =
     (if s = ''class Test:\<newline>    def case(self, a):\<newline>        pass\<newline>'' then
        Inr [ClassDef 1 3 0 ''Test'' []
               [FunctionDef 2 3 4 ''case'' (Arguments [] [''self'', ''a''] None [] None) []
                  [OtherStmt 3 3 8]]]
      else if s = ''def case(self, b):\<newline>    pass\<newline>'' then
        Inr [FunctionDef 1 2 0 ''case'' (Arguments [] [''self'', ''b''] None [] None) []
               [OtherStmt 2 2 4]]
      else Inl ''invalid syntax'')"

text \<open>A base with one import and a new unit with another one.\<close>

definition imp_base :: string where
  "imp_base = ''import sys\<newline>''"

definition imp_new :: string where
  "imp_new = ''import os\<newline>''"

definition imp_parser :: parser where
  "imp_parser s =
     (if s = ''import sys\<newline>'' then Inr [Import 1 1 0 [Alias ''sys'' None]]
      else if s = ''import os\<newline>'' then Inr [Import 1 1 0 [Alias ''os'' None]]
      else if s = ''import sys\<newline>import os\<newline>'' then
        Inr [Import 1 1 0 [Alias ''sys'' None], Import 2 2 0 [Alias ''os'' None]]
      else Inl ''invalid syntax'')"







text \<open>
  ADD mode: the base \<open>import sys\<close> and a new unit with an import and a class, in this
  order.
\<close>

definition order_new :: string where
  "order_new = ''import os\<newline>class C:\<newline>    pass\<newline>''"

definition order_class :: stmt where
  "order_class = ClassDef 2 3 0 ''C'' [] [OtherStmt 3 3 4]"

definition order_parser :: parser where
  "order_parser s =
     (if s = ''import sys\<newline>'' then Inr [Import 1 1 0 [Alias ''sys'' None]]
      else if s = ''import os\<newline>class C:\<newline>    pass\<newline>'' then
        Inr [Import 1 1 0 [Alias ''os'' None], order_class]
      else if s = ''import sys\<newline>\<newline>class C:\<newline>    pass\<newline>'' then
        Inr [Import 1 1 0 [Alias ''sys'' None], ClassDef 3 4 0 ''C'' [] [OtherStmt 4 4 4]]
      else if s = ''import sys\<newline>import os\<newline>\<newline>class C:\<newline>    pass\<newline>'' then
        Inr [Import 1 1 0 [Alias ''sys'' None], Import 2 2 0 [Alias ''os'' None],
             ClassDef 4 5 0 ''C'' [] [OtherStmt 5 5 4]]
      else Inl ''invalid syntax'')"

text \<open>
  APPEND on a decorated target: the function \<open>f\<close> with the decorator \<open>@a\<close>, and a new
  callable with the decorators \<open>@a\<close> (followed by two blanks) and \<open>@b\<close>.
\<close>

definition deco_base :: string where
  "deco_base = ''@a\<newline>def f():\<newline>    pass\<newline>''"

definition deco_snippet :: string where
  "deco_snippet = ''@a  \<newline>@b\<newline>def f():\<newline>    x = 1\<newline>''"

definition deco_target :: stmt where
  "deco_target = FunctionDef 2 3 0 ''f'' (Arguments [] [] None [] None) [Expr 1 1 1 2] [OtherStmt 3 3 4]"

definition deco_new :: stmt where
  "deco_new = FunctionDef 3 4 0 ''f'' (Arguments [] [] None [] None) [Expr 1 1 1 2, Expr 2 2 1 2]
                [OtherStmt 4 4 4]"

definition deco_parser :: parser where
  "deco_parser s =
     (if s = ''@a\<newline>def f():\<newline>    pass\<newline>'' then Inr [deco_target]
      else if s = ''@a  \<newline>@b\<newline>def f():\<newline>    x = 1\<newline>'' then Inr [deco_new]
      else if s = ''@a\<newline>@b\<newline>def f():\<newline>    pass\<newline>'' then
        Inr [FunctionDef 3 4 0 ''f'' (Arguments [] [] None [] None) [Expr 1 1 1 2, Expr 2 2 1 2]
               [OtherStmt 4 4 4]]
      else if s = ''@a\<newline>@b\<newline>def f():\<newline>    pass\<newline>\<newline>    x = 1\<newline>'' then
        Inr [FunctionDef 3 6 0 ''f'' (Arguments [] [] None [] None) [Expr 1 1 1 2, Expr 2 2 1 2]
               [OtherStmt 4 4 4, OtherStmt 6 6 4]]
      else Inl ''invalid syntax'')"

text \<open>
  APPEND of a function body: the function \<open>helper(x)\<close> with the body \<open>return x\<close> and a new
  \<open>helper(x)\<close> with the body \<open>return x + 1\<close>, both indented by four blanks.
\<close>

definition helper_base :: string where
  "helper_base = ''def helper(x):\<newline>    return x\<newline>''"

definition helper_snippet :: string where
  "helper_snippet = ''def helper(x):\<newline>    return x + 1\<newline>''"

definition helper_target :: stmt where
  "helper_target = FunctionDef 1 2 0 ''helper'' (Arguments [] [''x''] None [] None) []
                     [OtherStmt 2 2 4]"

definition helper_new :: stmt where
  "helper_new = FunctionDef 1 2 0 ''helper'' (Arguments [] [''x''] None [] None) []
                  [OtherStmt 2 2 4]"

definition helper_merged :: stmt where
  "helper_merged = FunctionDef 1 4 0 ''helper'' (Arguments [] [''x''] None [] None) []
                     [OtherStmt 2 2 4, OtherStmt 4 4 4]"

definition helper_parser :: parser where
  "helper_parser s =
     (if s = ''def helper(x):\<newline>    return x\<newline>'' then Inr [helper_target]
      else if s = ''def helper(x):\<newline>    return x + 1\<newline>'' then Inr [helper_new]
      else if s = ''def helper(x):\<newline>    return x\<newline>\<newline>    return x + 1\<newline>'' then
        Inr [helper_merged]
      else Inl ''invalid syntax'')"

text \<open>
  ADD mode twice: a new unit with the class \<open>T\<close> and its method \<open>test_a\<close>, merged into an
  empty base and then into the text that this gives.
\<close>

definition dup_new :: string where
  "dup_new = ''class T:\<newline>    def test_a(self):\<newline>        pass\<newline>''"

definition dup_method :: stmt where
  "dup_method = FunctionDef 2 3 4 ''test_a'' (Arguments [] [''self''] None [] None) []
                  [OtherStmt 3 3 8]"

definition dup_parser :: parser where
  "dup_parser s =
     (if s = ''class T:\<newline>    def test_a(self):\<newline>        pass\<newline>'' then
        Inr [ClassDef 1 3 0 ''T'' [] [dup_method]]
      else if s = ''class T:\<newline>    def test_a(self):\<newline>        pass\<newline>\<newline>    def test_a(self):\<newline>        pass\<newline>'' then
        Inr [ClassDef 1 6 0 ''T'' []
               [dup_method,
                FunctionDef 5 6 4 ''test_a'' (Arguments [] [''self''] None [] None) []
                  [OtherStmt 6 6 8]]]
      else Inl ''invalid syntax'')"

text \<open>
  A new callable written on one line, for the base \<open>helper_base\<close>.
\<close>

definition oneline_snippet :: string where
  "oneline_snippet = ''def helper(x): return x + 1\<newline>''"

definition oneline_parser :: parser where
  "oneline_parser s =
     (if s = ''def helper(x):\<newline>    return x\<newline>'' then Inr [helper_target]
      else if s = ''def helper(x): return x + 1\<newline>'' then
        Inr [FunctionDef 1 1 0 ''helper'' (Arguments [] [''x''] None [] None) [] [OtherStmt 1 1 15]]
      else if s = ''def helper(x):\<newline>    return x\<newline>\<newline>''
                  @ ''    def helper(x): return x + 1\<newline>'' then
        Inr [FunctionDef 1 4 0 ''helper'' (Arguments [] [''x''] None [] None) []
               [OtherStmt 2 2 4,
                FunctionDef 4 4 4 ''helper'' (Arguments [] [''x''] None [] None) []
                  [OtherStmt 4 4 19]]]
      else Inl ''invalid syntax'')"

text \<open>
  A base whose statement \<open>x = 1\<close> is followed by a form feed before the end of its line,
  and a new callable with the statement \<open>y = 2\<close>.
\<close>

definition ff_base :: string where
  "ff_base = ''def f():\<newline>    x = 1'' @ [CHR 0x0C] @ ''\<newline>''"

definition ff_snippet :: string where
  "ff_snippet = ''def f():\<newline>    y = 2\<newline>''"

definition ff_target :: stmt where
  "ff_target = FunctionDef 1 2 0 ''f'' (Arguments [] [] None [] None) [] [OtherStmt 2 2 4]"

definition ff_parser :: parser where
  "ff_parser s =
     (if s = ''def f():\<newline>    x = 1'' @ [CHR 0x0C] @ ''\<newline>\<newline>'' then Inr [ff_target]
      else if s = ''def f():\<newline>    y = 2\<newline>'' then Inr [ff_target]
      else if s = ''def f():\<newline>    x = 1'' @ [CHR 0x0C] @ ''\<newline>\<newline>    y = 2\<newline>\<newline>\<newline>'' then
        Inr [FunctionDef 1 4 0 ''f'' (Arguments [] [] None [] None) []
               [OtherStmt 2 2 4, OtherStmt 4 4 4]]
      else Inl ''invalid syntax'')"

text \<open>
  APPEND on a method in a class.  The target \<open>T.f(self, x)\<close> is decorated with \<open>@a\<close> and
  has a body of two statements, indented by eight blanks.  The new callable is indented
  by two blanks and its body by two more; it is decorated with \<open>@a\<close> (followed by two
  blanks) and with \<open>@b(1, 2)\<close> written on two lines, and its body is an \<open>if\<close> statement, a
  blank line and a \<open>return\<close>.
\<close>

definition meth_base :: string where
  "meth_base = ''class T:\<newline>'' @ ''    @a\<newline>'' @ ''    def f(self, x):\<newline>''
               @ ''        y = x\<newline>'' @ ''        return y\<newline>''"

definition meth_snippet :: string where
  "meth_snippet = ''  @a  \<newline>'' @ ''  @b(1,\<newline>'' @ ''     2)\<newline>''
                  @ ''  def f(self, x):\<newline>'' @ ''    if x:\<newline>'' @ ''      y = 1\<newline>''
                  @ ''\<newline>'' @ ''    return y\<newline>''"

definition meth_target :: stmt where
  "meth_target = FunctionDef 3 5 4 ''f'' (Arguments [] [''self'', ''x''] None [] None)
                   [Expr 2 2 5 6] [OtherStmt 4 4 8, OtherStmt 5 5 8]"

definition meth_new :: stmt where
  "meth_new = FunctionDef 4 8 0 ''f'' (Arguments [] [''self'', ''x''] None [] None)
                [Expr 1 1 1 2, Expr 2 3 1 5] [OtherStmt 5 6 2, OtherStmt 8 8 2]"

definition meth_decorated :: stmt where
  "meth_decorated = FunctionDef 5 7 4 ''f'' (Arguments [] [''self'', ''x''] None [] None)
                      [Expr 2 2 5 6, Expr 3 4 5 6] [OtherStmt 6 6 8, OtherStmt 7 7 8]"

definition meth_merged :: stmt where
  "meth_merged = FunctionDef 5 12 4 ''f'' (Arguments [] [''self'', ''x''] None [] None)
                   [Expr 2 2 5 6, Expr 3 4 5 6]
                   [OtherStmt 6 6 8, OtherStmt 7 7 8, OtherStmt 9 10 8, OtherStmt 12 12 8]"

definition meth_parser :: parser where
  "meth_parser s =
     (if s = ''class T:\<newline>'' @ ''    @a\<newline>'' @ ''    def f(self, x):\<newline>''
             @ ''        y = x\<newline>'' @ ''        return y\<newline>'' then
        Inr [ClassDef 1 5 0 ''T'' [] [meth_target]]
      else if s = ''@a  \<newline>'' @ ''@b(1,\<newline>'' @ ''   2)\<newline>'' @ ''def f(self, x):\<newline>''
                  @ ''  if x:\<newline>'' @ ''    y = 1\<newline>'' @ ''\<newline>'' @ ''  return y\<newline>'' then
        Inr [meth_new]
      else if s = ''class T:\<newline>'' @ ''    @a\<newline>'' @ ''    @b(1,\<newline>'' @ ''    2)\<newline>''
                  @ ''    def f(self, x):\<newline>'' @ ''        y = x\<newline>''
                  @ ''        return y\<newline>'' then
        Inr [ClassDef 1 7 0 ''T'' [] [meth_decorated]]
      else if s = ''class T:\<newline>'' @ ''    @a\<newline>'' @ ''    @b(1,\<newline>'' @ ''    2)\<newline>''
                  @ ''    def f(self, x):\<newline>'' @ ''        y = x\<newline>''
                  @ ''        return y\<newline>'' @ ''\<newline>'' @ ''        if x:\<newline>''
                  @ ''          y = 1\<newline>'' @ ''\<newline>'' @ ''        return y\<newline>'' then
        Inr [ClassDef 1 12 0 ''T'' [] [meth_merged]]
      else Inl ''invalid syntax'')"

text \<open>
  A target method written on one line, \<open>T.f(self)\<close> with the body \<open>pass\<close>, and a new callable
  \<open>f(self)\<close> with the body \<open>x = 1\<close>.
\<close>

definition inline_base :: string where
  "inline_base = ''class T:\<newline>'' @ ''    def f(self): pass\<newline>''"

definition inline_snippet :: string where
  "inline_snippet = ''def f(self):\<newline>'' @ ''    x = 1\<newline>''"

definition inline_target :: stmt where
  "inline_target = FunctionDef 2 2 4 ''f'' (Arguments [] [''self''] None [] None) []
                     [OtherStmt 2 2 17]"

definition inline_parser :: parser where
  "inline_parser s =
     (if s = ''class T:\<newline>'' @ ''    def f(self): pass\<newline>'' then
        Inr [ClassDef 1 2 0 ''T'' [] [inline_target]]
      else if s = ''def f(self):\<newline>'' @ ''    x = 1\<newline>'' then
        Inr [FunctionDef 1 2 0 ''f'' (Arguments [] [''self''] None [] None) [] [OtherStmt 2 2 4]]
      else if s = ''class T:\<newline>'' @ ''    def f(self): pass\<newline>'' @ ''\<newline>''
                  @ ''    x = 1\<newline>'' then
        Inr [ClassDef 1 4 0 ''T'' [] [inline_target, OtherStmt 4 4 4]]
      else Inl ''invalid syntax'')"

text \<open>
  A target whose decorator \<open>@a\<close> is followed by a comment, and a new callable with the
  decorator \<open>@a\<close>.
\<close>

definition comment_base :: string where
  "comment_base = ''@a  # c\<newline>'' @ ''def f():\<newline>'' @ ''    pass\<newline>''"

definition comment_snippet :: string where
  "comment_snippet = ''@a\<newline>'' @ ''def f():\<newline>'' @ ''    x = 1\<newline>''"

definition comment_target :: stmt where
  "comment_target = FunctionDef 2 3 0 ''f'' (Arguments [] [] None [] None) [Expr 1 1 1 2]
                      [OtherStmt 3 3 4]"

definition comment_parser :: parser where
  "comment_parser s =
     (if s = ''@a  # c\<newline>'' @ ''def f():\<newline>'' @ ''    pass\<newline>'' then Inr [comment_target]
      else if s = ''@a\<newline>'' @ ''def f():\<newline>'' @ ''    x = 1\<newline>'' then Inr [comment_target]
      else if s = ''@a  # c\<newline>'' @ ''@a\<newline>'' @ ''def f():\<newline>'' @ ''    pass\<newline>'' then
        Inr [FunctionDef 3 4 0 ''f'' (Arguments [] [] None [] None) [Expr 1 1 1 2, Expr 2 2 1 2]
               [OtherStmt 4 4 4]]
      else if s = ''@a  # c\<newline>'' @ ''@a\<newline>'' @ ''def f():\<newline>'' @ ''    pass\<newline>''
                  @ ''\<newline>'' @ ''    x = 1\<newline>'' then
        Inr [FunctionDef 3 6 0 ''f'' (Arguments [] [] None [] None) [Expr 1 1 1 2, Expr 2 2 1 2]
               [OtherStmt 4 4 4, OtherStmt 6 6 4]]
      else Inl ''invalid syntax'')"

section \<open>Properties\<close>

subsection \<open>The signature gate\<close>

lemma signatures_match_differ:
  "sig1 \<noteq> sig2 \<Longrightarrow> fst (signatures_match sig1 sig2) = False"
  by (cases sig1; cases sig2) (auto simp: signatures_match_def)

lemma append_callable_body_mismatch:
  assumes "resolve_target m target_name target_cls_name = Inr target"
    and "parse_new_callable P target_name snippet = Inr new"
    and "args new \<noteq> args target"
  shows "append_callable_body P target_name snippet target_cls_name m =
           (Some (ValueError (''Signatures differ for '' @ quote target_name @ '': ''
                              @ snd (signatures_match (args new) (args target)))), m)"
  using assms signatures_match_differ[of "args new" "args target"]
  by (auto simp: append_callable_body_def split: prod.splits bool.splits)

text \<open>
  C1.  When the target resolves, the dedented new snippet parses to a module whose first
  statement is a function definition, and the two \<open>arguments\<close> differ (they differ in one
  of their five components), \<open>append_callable_body\<close> raises the \<open>ValueError\<close>
  \<open>Signatures differ for '<target_name>': <reason>\<close> and leaves the Merger, and so the
  line buffer, as it was.  The reason names the first component that differs, in the order
  positional-only, positional, \<open>*args\<close>, keyword-only, \<open>**kwargs\<close>, with the value of the
  new callable and then the value of the target.
\<close>

theorem signature_gate:
  assumes "resolve_target m target_name target_cls_name = Inr target"
    and "P (dedent snippet) = Inr new_body"
    and "new_body \<noteq> []" and "is_FunctionDef (hd new_body)"
    and "args (hd new_body) \<noteq> args target"
  shows "\<exists>reason.
           append_callable_body P target_name snippet target_cls_name m =
             (Some (ValueError (''Signatures differ for '' @ quote target_name @ '': '' @ reason)), m)
         \<and> (a_posonlyargs (args (hd new_body)) \<noteq> a_posonlyargs (args target) \<longrightarrow>
              reason = ''Positional-only arguments differ: ''
                       @ repr_list (a_posonlyargs (args (hd new_body))) @ '' vs ''
                       @ repr_list (a_posonlyargs (args target)))
         \<and> (a_posonlyargs (args (hd new_body)) = a_posonlyargs (args target)
              \<and> a_args (args (hd new_body)) \<noteq> a_args (args target) \<longrightarrow>
              reason = ''Positional arguments differ: ''
                       @ repr_list (a_args (args (hd new_body))) @ '' vs ''
                       @ repr_list (a_args (args target)))
         \<and> (a_posonlyargs (args (hd new_body)) = a_posonlyargs (args target)
              \<and> a_args (args (hd new_body)) = a_args (args target)
              \<and> a_vararg (args (hd new_body)) \<noteq> a_vararg (args target) \<longrightarrow>
              reason = ''*args differ: '' @ quote (str_opt (a_vararg (args (hd new_body))))
                       @ '' vs '' @ quote (str_opt (a_vararg (args target))))
         \<and> (a_posonlyargs (args (hd new_body)) = a_posonlyargs (args target)
              \<and> a_args (args (hd new_body)) = a_args (args target)
              \<and> a_vararg (args (hd new_body)) = a_vararg (args target)
              \<and> a_kwonlyargs (args (hd new_body)) \<noteq> a_kwonlyargs (args target) \<longrightarrow>
              reason = ''Keyword-only arguments differ: ''
                       @ repr_list (a_kwonlyargs (args (hd new_body))) @ '' vs ''
                       @ repr_list (a_kwonlyargs (args target)))
         \<and> (a_posonlyargs (args (hd new_body)) = a_posonlyargs (args target)
              \<and> a_args (args (hd new_body)) = a_args (args target)
              \<and> a_vararg (args (hd new_body)) = a_vararg (args target)
              \<and> a_kwonlyargs (args (hd new_body)) = a_kwonlyargs (args target)
              \<and> a_kwarg (args (hd new_body)) \<noteq> a_kwarg (args target) \<longrightarrow>
              reason = ''**kwargs differ: '' @ quote (str_opt (a_kwarg (args (hd new_body))))
                       @ '' vs '' @ quote (str_opt (a_kwarg (args target))))"
proof -
  have p: "parse_new_callable P target_name snippet = Inr (hd new_body)"
    using assms(2-4) by (simp add: parse_new_callable_def)
  show ?thesis
    using append_callable_body_mismatch[OF assms(1) p assms(5)]
    by (simp add: signatures_match_def)
qed

text \<open>
  The theorem at \<open>Test.case(self, a)\<close> and a new \<open>case(self, b)\<close>: the positional
  arguments differ, and the Merger of the base text is unchanged.
\<close>

theorem signature_gate_witness:
  "append_callable_body sig_parser ''case'' sig_snippet (Some ''Test'')
       (snd (Merger sig_parser sig_base)) =
     (Some (ValueError
        ''Signatures differ for 'case': Positional arguments differ: ['self', 'b'] vs ['self', 'a']''),
      snd (Merger sig_parser sig_base))"
proof -
  let ?m = "snd (Merger sig_parser sig_base)"
  let ?t = "FunctionDef 2 3 4 ''case'' (Arguments [] [''self'', ''a''] None [] None) []
              [OtherStmt 3 3 8]"
  let ?n = "[FunctionDef 1 2 0 ''case'' (Arguments [] [''self'', ''b''] None [] None) []
              [OtherStmt 2 2 4]]"
  have h1: "resolve_target ?m ''case'' (Some ''Test'') = Inr ?t" by code_simp
  have h2: "sig_parser (dedent sig_snippet) = Inr ?n" by code_simp
  have h3: "?n \<noteq> []" by simp
  have h4: "is_FunctionDef (hd ?n)" by simp
  have h5: "args (hd ?n) \<noteq> args ?t" by simp
  from signature_gate[where P = sig_parser and snippet = sig_snippet, OF h1 h2 h3 h4 h5]
  show ?thesis
    by (simp add: quote_def repr_list_def repr_str_def)
qed

subsection \<open>The identity of an ExtractedFunction\<close>

text \<open>
  C9.  Two \<open>ExtractedFunction\<close> values with the same \<open>class_name\<close> and the same
  \<open>func_name\<close> are equal and have the same hash, whatever their \<open>func_def\<close> and
  \<open>file_path\<close> are: \<open>__hash__\<close> reads the pair of names only and \<open>__eq__\<close> compares the
  hashes.
\<close>

theorem extracted_function_nominal:
  "class_name a = class_name b \<Longrightarrow> func_name a = func_name b
   \<Longrightarrow> ef_eq H a b \<and> ef_hash H a = ef_hash H b
       \<and> ef_hash H a = H (class_name a, func_name a)"
  by (simp add: ef_eq_def ef_hash_def)

theorem extracted_function_nominal_witness:
  "func_def \<lparr>class_name = Some ''TestFoo'', func_name = PStr ''test_b'',
              func_def = Some ''def test_b(self): pass'', file_path = Some ''a.py''\<rparr>
     \<noteq> func_def \<lparr>class_name = Some ''TestFoo'', func_name = PStr ''test_b'',
                  func_def = None, file_path = None\<rparr>
   \<and> ef_eq example_hash
         \<lparr>class_name = Some ''TestFoo'', func_name = PStr ''test_b'',
          func_def = Some ''def test_b(self): pass'', file_path = Some ''a.py''\<rparr>
         \<lparr>class_name = Some ''TestFoo'', func_name = PStr ''test_b'',
          func_def = None, file_path = None\<rparr>
   \<and> ef_hash example_hash
         \<lparr>class_name = Some ''TestFoo'', func_name = PStr ''test_b'',
          func_def = Some ''def test_b(self): pass'', file_path = Some ''a.py''\<rparr>
       = ef_hash example_hash
           \<lparr>class_name = Some ''TestFoo'', func_name = PStr ''test_b'',
            func_def = None, file_path = None\<rparr>"
  using extracted_function_nominal
          [of "\<lparr>class_name = Some ''TestFoo'', func_name = PStr ''test_b'',
                func_def = Some ''def test_b(self): pass'', file_path = Some ''a.py''\<rparr>"
              "\<lparr>class_name = Some ''TestFoo'', func_name = PStr ''test_b'',
                func_def = None, file_path = None\<rparr>" example_hash]
  by simp

subsection \<open>add_methods on a class that is not there\<close>

text \<open>
  C4, as the code has it.  When the class is not in \<open>cls_map\<close>, \<open>add_methods\<close> logs the
  error \<open>Class <name> not found. Cannot add methods.\<close> and returns: no exception is
  raised, and the line buffer and the index are as before.
\<close>

theorem add_methods_missing_class:
  "map_of (cls_map m) cls = None \<Longrightarrow>
   add_methods P cls methods m =
     (None, m\<lparr>logged := logged m @
        [LogError (''Class '' @ cls @ '' not found. Cannot add methods.'')]\<rparr>)"
  by (simp add: add_methods_def)

theorem add_methods_missing_class_witness:
  "map_of (cls_map (snd (Merger sig_parser sig_base))) ''Other'' = None
   \<and> lines (snd (add_methods sig_parser ''Other'' [sig_snippet] (snd (Merger sig_parser sig_base))))
       = lines (snd (Merger sig_parser sig_base))
   \<and> logged (snd (add_methods sig_parser ''Other'' [sig_snippet] (snd (Merger sig_parser sig_base))))
       = [LogError ''Class Other not found. Cannot add methods.'']"
proof -
  have h: "map_of (cls_map (snd (Merger sig_parser sig_base))) ''Other'' = None" by code_simp
  have l: "logged (snd (Merger sig_parser sig_base)) = []" by code_simp
  from add_methods_missing_class[OF h, of sig_parser "[sig_snippet]"] h l show ?thesis by simp
qed

text \<open>
  The claim as the specification states it asks for an exception.  On the base
  \<open>class Test\<close> the call for the class \<open>Missing\<close> returns without one.
\<close>

theorem add_methods_missing_class_counterexample:
  "fst (add_methods sig_parser ''Missing'' [sig_snippet] (snd (Merger sig_parser sig_base))) = None"
  by code_simp

subsection \<open>APPEND mode without a mapping\<close>

lemma walk_node_not_add:
  "mode \<noteq> ''ADD'' \<Longrightarrow> fst (walk_node P H mode new_src node w) = None
     \<and> merger (snd (walk_node P H mode new_src node w)) = merger w"
  by (simp add: walk_node_def Let_def)

lemma walk_not_add:
  "mode \<noteq> ''ADD'' \<Longrightarrow> fst (walk P H mode new_src nodes w) = None
     \<and> merger (snd (walk P H mode new_src nodes w)) = merger w"
proof (induction nodes arbitrary: w)
  case Nil
  then show ?case by simp
next
  case (Cons node nodes)
  from walk_node_not_add[OF Cons.prems, of P H new_src node w]
  obtain w1 where w1: "walk_node P H mode new_src node w = (None, w1)" "merger w1 = merger w"
    by (cases "walk_node P H mode new_src node w") auto
  with Cons.IH[OF Cons.prems, of w1] show ?case by simp
qed

lemma initial_walk_state_merger [simp]: "merger (initial_walk_state m) = m"
  by (simp add: initial_walk_state_def)

lemma merge_walk_not_add:
  "mode \<noteq> ''ADD'' \<Longrightarrow>
   merger (snd (merge_walk P H mode new_src base_src)) = snd (Merger P base_src)"
  using walk_not_add[of mode P H new_src]
  by (auto simp: merge_walk_def split: prod.splits option.splits sum.splits)

lemma merge_mode_append_not_mapping:
  "mapping = None \<or> mapping = Some [] \<Longrightarrow>
   merge_mode P H ''APPEND'' mapping w =
     (Some (ValueError ''--map is required in APPEND mode.''), w)"
  by (auto simp: merge_mode_def)

lemma merge_imports_merger:
  "merger (snd (merge_imports P w)) = snd (add_imports P (new_imports_to_add w) (merger w))"
  by (auto simp: merge_imports_def add_imports_def split: prod.splits)

text \<open>
  C10.  In APPEND mode an empty mapping behaves as no mapping: \<open>merge_tests\<close> gives the
  same outcome for both, never a merged text, and when the Merger of the base, the parse of
  the new unit and the insertion of the imports raise nothing, the outcome is the
  \<open>ValueError\<close> \<open>--map is required in APPEND mode.\<close>
\<close>

theorem empty_mapping_rejected:
  assumes "upper mode = ''APPEND''"
  shows "merge_tests P H new_src base_src mode (Some []) = merge_tests P H new_src base_src mode None
       \<and> (\<forall>r. merge_tests P H new_src base_src mode (Some []) \<noteq> Inr r)
       \<and> (fst (merge_walk P H ''APPEND'' new_src base_src) = None
           \<and> fst (merge_imports P (snd (merge_walk P H ''APPEND'' new_src base_src))) = None
          \<longrightarrow> merge_tests P H new_src base_src mode (Some [])
                = Inl (ValueError ''--map is required in APPEND mode.''))"
  using assms
  by (auto simp: merge_tests_def merge_run_def merge_mode_append_not_mapping
           split: prod.splits option.splits)

theorem empty_mapping_rejected_witness:
  "upper ''append'' = ''APPEND''
   \<and> merge_tests sig_parser example_hash sig_base sig_base ''append'' (Some [])
       = Inl (ValueError ''--map is required in APPEND mode.'')"
proof -
  have u: "upper ''append'' = ''APPEND''" by code_simp
  have a: "fst (merge_walk sig_parser example_hash ''APPEND'' sig_base sig_base) = None"
    by code_simp
  have b: "fst (merge_imports sig_parser
                  (snd (merge_walk sig_parser example_hash ''APPEND'' sig_base sig_base))) = None"
    by code_simp
  from empty_mapping_rejected[OF u, of sig_parser example_hash sig_base sig_base,
         THEN conjunct2, THEN conjunct2] a b u
  show ?thesis by blast
qed

text \<open>
  C5, as the code has it.  In APPEND mode without a mapping \<open>merge_tests\<close> never returns a
  merged text.  The loop over the new unit leaves the Merger as it was constructed; then
  the new imports are inserted into the line buffer of the Merger (\<open>add_imports\<close>); and
  when nothing has raised so far, the call raises the \<open>ValueError\<close>
  \<open>--map is required in APPEND mode.\<close> with the Merger in that state.  So the error comes
  after the insertion of the imports, and after no other change of the buffer.
\<close>

theorem missing_mapping_after_imports:
  assumes "upper mode = ''APPEND''"
  shows "(\<forall>r. merge_tests P H new_src base_src mode None \<noteq> Inr r)
       \<and> merger (snd (merge_walk P H ''APPEND'' new_src base_src)) = snd (Merger P base_src)
       \<and> merger (snd (merge_imports P (snd (merge_walk P H ''APPEND'' new_src base_src))))
           = snd (add_imports P
                    (new_imports_to_add (snd (merge_walk P H ''APPEND'' new_src base_src)))
                    (snd (Merger P base_src)))
       \<and> (fst (merge_walk P H ''APPEND'' new_src base_src) = None
           \<and> fst (merge_imports P (snd (merge_walk P H ''APPEND'' new_src base_src))) = None
          \<longrightarrow> merge_run P H new_src base_src mode None
                = (Some (ValueError ''--map is required in APPEND mode.''),
                   snd (merge_imports P (snd (merge_walk P H ''APPEND'' new_src base_src)))))"
proof -
  have na: "''APPEND'' \<noteq> ''ADD''" by simp
  have 1: "\<forall>r. merge_tests P H new_src base_src mode None \<noteq> Inr r"
    using assms
    by (auto simp: merge_tests_def merge_run_def merge_mode_append_not_mapping
             split: prod.splits option.splits)
  have 2: "merger (snd (merge_walk P H ''APPEND'' new_src base_src)) = snd (Merger P base_src)"
    by (rule merge_walk_not_add[OF na])
  have 3: "merger (snd (merge_imports P (snd (merge_walk P H ''APPEND'' new_src base_src))))
           = snd (add_imports P
                    (new_imports_to_add (snd (merge_walk P H ''APPEND'' new_src base_src)))
                    (snd (Merger P base_src)))"
    by (simp add: merge_imports_merger 2)
  have 4: "fst (merge_walk P H ''APPEND'' new_src base_src) = None
           \<and> fst (merge_imports P (snd (merge_walk P H ''APPEND'' new_src base_src))) = None
          \<longrightarrow> merge_run P H new_src base_src mode None
                = (Some (ValueError ''--map is required in APPEND mode.''),
                   snd (merge_imports P (snd (merge_walk P H ''APPEND'' new_src base_src))))"
    using assms
    by (auto simp: merge_run_def merge_mode_append_not_mapping split: prod.splits option.splits)
  from 1 2 3 4 show ?thesis by blast
qed

theorem missing_mapping_after_imports_witness:
  "upper ''APPEND'' = ''APPEND''
   \<and> merge_run imp_parser example_hash imp_new imp_base ''APPEND'' None
       = (Some (ValueError ''--map is required in APPEND mode.''),
          snd (merge_imports imp_parser
                 (snd (merge_walk imp_parser example_hash ''APPEND'' imp_new imp_base))))
   \<and> new_imports_to_add
         (snd (merge_walk imp_parser example_hash ''APPEND'' imp_new imp_base))
       = [imp_new]"
proof -
  have u: "upper ''APPEND'' = ''APPEND''" by code_simp
  have a: "fst (merge_walk imp_parser example_hash ''APPEND'' imp_new imp_base) = None"
    by code_simp
  have b: "fst (merge_imports imp_parser
                  (snd (merge_walk imp_parser example_hash ''APPEND'' imp_new imp_base))) = None"
    by code_simp
  have c: "new_imports_to_add
             (snd (merge_walk imp_parser example_hash ''APPEND'' imp_new imp_base))
           = [imp_new]"
    by code_simp
  from missing_mapping_after_imports[OF u, of imp_parser example_hash imp_new imp_base,
         THEN conjunct2, THEN conjunct2, THEN conjunct2] a b u c
  show ?thesis by blast
qed

text \<open>
  The claim as the specification states it wants the error before any change of the line
  buffer.  With the base \<open>import sys\<close> and the new unit \<open>import os\<close>, the buffer of the
  Merger holds the new import when the error is raised.
\<close>

theorem missing_mapping_after_imports_counterexample:
  "fst (merge_run imp_parser example_hash imp_new imp_base ''APPEND'' None)
     = Some (ValueError ''--map is required in APPEND mode.'')
   \<and> lines (merger (snd (merge_run imp_parser example_hash imp_new imp_base ''APPEND'' None)))
       = [imp_base, imp_new]
   \<and> lines (snd (Merger imp_parser imp_base)) = [imp_base]"
  by code_simp

subsection \<open>The entries of the mapping in APPEND mode\<close>


















subsection \<open>The order of the operations of one merge\<close>

lemma walk_app:
  "walk P H mode new_src (xs @ ys) w =
     (case walk P H mode new_src xs w of
        (Some e, w') \<Rightarrow> (Some e, w')
      | (None, w') \<Rightarrow> walk P H mode new_src ys w')"
  by (induction xs arbitrary: w) (auto split: prod.splits option.splits)

lemma walk_node_import:
  "is_import node \<Longrightarrow>
   fst (walk_node P H mode new_src node w) = None
   \<and> merger (snd (walk_node P H mode new_src node w)) = merger w"
  by (simp add: walk_node_def Let_def)

lemma walk_node_add_class:
  assumes "is_ClassDef node" "get_node_source_segment_v2 new_src node \<noteq> []"
    and "map_of (cls_map (merger w)) (name node) = None"
  shows "merger (snd (walk_node P H ''ADD'' new_src node w)) =
           snd (add_class_or_func P (with_newline (get_node_source_segment_v2 new_src node))
                  (merger w))
         \<and> new_imports_to_add (snd (walk_node P H ''ADD'' new_src node w)) = new_imports_to_add w"
  using assms
  by (cases node) (auto simp: walk_node_def Let_def is_import_def split: prod.splits option.splits)

lemma walk_node_add_function:
  assumes "is_FunctionDef node" "get_node_source_segment_v2 new_src node \<noteq> []"
    and "map_of (fn_map (merger w)) (name node) = None"
  shows "merger (snd (walk_node P H ''ADD'' new_src node w)) =
           snd (add_class_or_func P (with_newline (get_node_source_segment_v2 new_src node))
                  (merger w))
         \<and> new_imports_to_add (snd (walk_node P H ''ADD'' new_src node w)) = new_imports_to_add w"
  using assms
  by (cases node) (auto simp: walk_node_def Let_def is_import_def split: prod.splits option.splits)

lemma merge_run_phases:
  "fst (merge_walk P H (upper mode) new_src base_src) = None \<Longrightarrow>
   fst (merge_imports P (snd (merge_walk P H (upper mode) new_src base_src))) = None \<Longrightarrow>
   merge_run P H new_src base_src mode mapping =
     merge_mode P H (upper mode) mapping
       (snd (merge_imports P (snd (merge_walk P H (upper mode) new_src base_src))))"
  by (auto simp: merge_run_def split: prod.splits option.splits)

lemma merge_mode_append:
  "d \<noteq> [] \<Longrightarrow>
   merge_mode P H ''APPEND'' (Some d) w =
     (case append_pending_methods P H d (pending_methods_for_append w) w of
        (Some e, w') \<Rightarrow> (Some e, w')
      | (None, w') \<Rightarrow> append_pending_functions P H d (pending_functions_for_append w') w')"
  by (simp add: merge_mode_def)

lemma merge_mode_add:
  "merge_mode P H ''ADD'' mapping w = add_pending_methods P H (pending_methods_for_add w) w"
  by (simp add: merge_mode_def)

text \<open>
  C8, as the code has it.  The top-level statements of the new unit are processed in
  their order: the loop over a list and then another is the loop over the first followed
  by the loop over the second, from the state the first one leaves.  An import statement
  changes nothing in the Merger when it is processed; the imports are inserted after the
  loop (\<open>merge_imports\<close>), and the branch on the mode comes after that.  In ADD mode a
  class or a function that the target does not have is inserted when its statement is
  processed, that is before the imports are; the methods of classes that the target has
  are added in the branch on the mode, after the imports.  In any other mode the loop
  leaves the Merger as constructed; in APPEND mode the methods are resolved before the
  functions.
\<close>

theorem merge_order:
  "walk P H mode' new_src (xs @ ys) w =
     (case walk P H mode' new_src xs w of
        (Some e, w') \<Rightarrow> (Some e, w')
      | (None, w') \<Rightarrow> walk P H mode' new_src ys w')
   \<and> (is_import node \<longrightarrow>
        fst (walk_node P H mode' new_src node w) = None
        \<and> merger (snd (walk_node P H mode' new_src node w)) = merger w)
   \<and> (is_ClassDef node \<and> get_node_source_segment_v2 new_src node \<noteq> []
        \<and> map_of (cls_map (merger w)) (name node) = None \<longrightarrow>
        merger (snd (walk_node P H ''ADD'' new_src node w)) =
          snd (add_class_or_func P (with_newline (get_node_source_segment_v2 new_src node))
                 (merger w))
        \<and> new_imports_to_add (snd (walk_node P H ''ADD'' new_src node w)) = new_imports_to_add w)
   \<and> (is_FunctionDef node \<and> get_node_source_segment_v2 new_src node \<noteq> []
        \<and> map_of (fn_map (merger w)) (name node) = None \<longrightarrow>
        merger (snd (walk_node P H ''ADD'' new_src node w)) =
          snd (add_class_or_func P (with_newline (get_node_source_segment_v2 new_src node))
                 (merger w))
        \<and> new_imports_to_add (snd (walk_node P H ''ADD'' new_src node w)) = new_imports_to_add w)
   \<and> (mode' \<noteq> ''ADD'' \<longrightarrow>
        merger (snd (merge_walk P H mode' new_src base_src)) = snd (Merger P base_src))
   \<and> (fst (merge_walk P H (upper mode) new_src base_src) = None
        \<and> fst (merge_imports P (snd (merge_walk P H (upper mode) new_src base_src))) = None \<longrightarrow>
        merge_run P H new_src base_src mode mapping =
          merge_mode P H (upper mode) mapping
            (snd (merge_imports P (snd (merge_walk P H (upper mode) new_src base_src)))))
   \<and> merge_mode P H ''ADD'' mapping w = add_pending_methods P H (pending_methods_for_add w) w
   \<and> (d \<noteq> [] \<longrightarrow>
        merge_mode P H ''APPEND'' (Some d) w =
          (case append_pending_methods P H d (pending_methods_for_append w) w of
             (Some e, w') \<Rightarrow> (Some e, w')
           | (None, w') \<Rightarrow>
               append_pending_functions P H d (pending_functions_for_append w') w'))"
proof (intro conjI impI; (elim conjE)?)
  show "walk P H mode' new_src (xs @ ys) w =
     (case walk P H mode' new_src xs w of
        (Some e, w') \<Rightarrow> (Some e, w')
      | (None, w') \<Rightarrow> walk P H mode' new_src ys w')"
    by (rule walk_app)
  show "merge_mode P H ''ADD'' mapping w = add_pending_methods P H (pending_methods_for_add w) w"
    by (rule merge_mode_add)
qed (simp_all add: walk_node_import walk_node_add_class walk_node_add_function
       merge_walk_not_add merge_run_phases merge_mode_append)

text \<open>
  The theorem on the base \<open>import sys\<close> and the new unit \<open>order_new\<close> in ADD mode: at the
  class statement, the second of the new unit, the class is added to the buffer while the
  import of the first statement waits in \<open>new_imports_to_add\<close>.
\<close>

theorem merge_order_witness:
  "merger (snd (walk_node order_parser example_hash ''ADD'' order_new order_class
                  (snd (walk order_parser example_hash ''ADD'' order_new
                          [Import 1 1 0 [Alias ''os'' None]]
                          (initial_walk_state (snd (Merger order_parser imp_base)))))))
     = snd (add_class_or_func order_parser ''class C:\<newline>    pass\<newline>''
              (snd (Merger order_parser imp_base)))
   \<and> new_imports_to_add
         (snd (walk_node order_parser example_hash ''ADD'' order_new order_class
                  (snd (walk order_parser example_hash ''ADD'' order_new
                          [Import 1 1 0 [Alias ''os'' None]]
                          (initial_walk_state (snd (Merger order_parser imp_base)))))))
     = [imp_new]"
proof -
  define w where
    "w = snd (walk order_parser example_hash ''ADD'' order_new [Import 1 1 0 [Alias ''os'' None]]
                (initial_walk_state (snd (Merger order_parser imp_base))))"
  have h1: "is_ClassDef order_class" by (simp add: order_class_def)
  have h2: "get_node_source_segment_v2 order_new order_class \<noteq> []" by code_simp
  have h3: "map_of (cls_map (merger w)) (name order_class) = None"
    unfolding w_def by code_simp
  have s: "with_newline (get_node_source_segment_v2 order_new order_class)
           = ''class C:\<newline>    pass\<newline>''"
    by code_simp
  have m: "merger w = snd (Merger order_parser imp_base)"
    unfolding w_def by code_simp
  have i: "new_imports_to_add w = [imp_new]"
    unfolding w_def by code_simp
  from merge_order[where node = order_class and new_src = order_new and w = w
                     and P = order_parser and H = example_hash,
                   THEN conjunct2, THEN conjunct2, THEN conjunct1] h1 h2 h3
  have "merger (snd (walk_node order_parser example_hash ''ADD'' order_new order_class w)) =
          snd (add_class_or_func order_parser
                 (with_newline (get_node_source_segment_v2 order_new order_class)) (merger w))
        \<and> new_imports_to_add (snd (walk_node order_parser example_hash ''ADD'' order_new
                                     order_class w))
          = new_imports_to_add w"
    by blast
  then have "merger (snd (walk_node order_parser example_hash ''ADD'' order_new order_class w)) =
          snd (add_class_or_func order_parser ''class C:\<newline>    pass\<newline>''
                 (snd (Merger order_parser imp_base)))
        \<and> new_imports_to_add (snd (walk_node order_parser example_hash ''ADD'' order_new
                                     order_class w))
          = [imp_new]"
    by (simp only: s m i)
  then show ?thesis unfolding w_def .
qed

text \<open>
  The specification has the imports inserted before the classes and functions.  In the
  same run, at the end of the loop the buffer holds the class and not yet the import; the
  merged text has both.
\<close>

theorem merge_order_counterexample:
  "lines (merger (snd (merge_walk order_parser example_hash ''ADD'' order_new imp_base)))
     = [''import sys\<newline>'', ''\<newline>'', ''class C:\<newline>'', ''    pass\<newline>'']
   \<and> new_imports_to_add (snd (merge_walk order_parser example_hash ''ADD'' order_new imp_base))
     = [''import os\<newline>'']
   \<and> merge_tests order_parser example_hash order_new imp_base ''ADD'' None
     = Inr (''import sys\<newline>import os\<newline>\<newline>class C:\<newline>    pass\<newline>'', [])"
  by code_simp

subsection \<open>Lines\<close>

text \<open>
  Facts on \<open>str.splitlines\<close>, on \<open>str.strip\<close> and on slices, for the texts that the Merger
  joins and splits again each time it builds its index.
\<close>

lemma splitlines_keepends_Cons:
  "splitlines_keepends (c # cs) =
     (if c = CR \<and> cs \<noteq> [] \<and> hd cs = LF then [c, LF] # splitlines_keepends (tl cs)
      else if is_linebreak c then [c] # splitlines_keepends cs
      else (case splitlines_keepends cs of [] \<Rightarrow> [[c]] | l # ls \<Rightarrow> (c # l) # ls))"
  by (cases cs) (simp_all add: is_linebreak_def)

lemma concat_splitlines_keepends: "concat (splitlines_keepends s) = s"
proof (induction "length s" arbitrary: s rule: less_induct)
  case less
  show ?case
  proof (cases s)
    case Nil
    then show ?thesis by simp
  next
    case (Cons c cs)
    have IH1: "concat (splitlines_keepends cs) = cs"
      using less Cons by simp
    have IH2: "cs \<noteq> [] \<Longrightarrow> concat (splitlines_keepends (tl cs)) = tl cs"
      using less Cons by simp
    show ?thesis
      unfolding Cons splitlines_keepends_Cons
      using IH1 IH2
      by (cases cs; cases "splitlines_keepends cs")
         (auto simp del: splitlines_keepends.simps)
  qed
qed

lemma splitlines_keepends_Nil_iff: "splitlines_keepends s = [] \<longleftrightarrow> s = []"
  by (metis concat_splitlines_keepends concat.simps(1) splitlines_keepends.simps(1))

lemma strip_Nil_iff: "strip s = [] \<longleftrightarrow> (\<forall>c\<in>set s. isspace c)"
proof
  assume a: "strip s = []"
  have "dropWhile isspace (rev s) = []"
  proof (rule ccontr)
    assume n: "dropWhile isspace (rev s) \<noteq> []"
    then have "\<not> isspace (hd (dropWhile isspace (rev s)))" by (rule hd_dropWhile)
    moreover from a have "\<forall>c\<in>set (dropWhile isspace (rev s)). isspace c"
      by (auto simp: strip_def lstrip_def rstrip_def dropWhile_eq_Nil_conv dest: set_dropWhileD)
    ultimately show False using n by (metis list.set_sel(1))
  qed
  then show "\<forall>c\<in>set s. isspace c" by (simp add: dropWhile_eq_Nil_conv)
next
  assume "\<forall>c\<in>set s. isspace c"
  then show "strip s = []"
    by (auto simp: strip_def lstrip_def rstrip_def dest: set_dropWhileD)
qed

lemma lstrip_Nil_iff: "lstrip s = [] \<longleftrightarrow> (\<forall>c\<in>set s. isspace c)"
  by (simp add: lstrip_def)

lemma lstrip_strip: "lstrip l \<noteq> [] \<Longrightarrow> strip l \<noteq> []"
  by (simp add: lstrip_Nil_iff strip_Nil_iff)

lemma strip_concat_nonblank:
  assumes "x \<in> set xs" "strip x \<noteq> []"
  shows "strip (concat xs) \<noteq> []"
  using assms by (auto simp: strip_Nil_iff)

lemma endswith_last: "endswith s [LF] \<Longrightarrow> s \<noteq> [] \<and> last s = LF"
  by (auto simp: endswith_def suffix_def)

lemma endswith_iff: "endswith s [LF] \<longleftrightarrow> s \<noteq> [] \<and> last s = LF"
  by (cases s rule: rev_cases) (auto simp: endswith_def)

lemma endswith_Cons_tail:
  "endswith (c # cs) [LF] \<Longrightarrow> cs \<noteq> [] \<Longrightarrow> endswith cs [LF]"
  by (simp add: endswith_iff)

lemma splitlines_keepends_append:
  "x = [] \<or> endswith x [LF]
   \<Longrightarrow> splitlines_keepends (x @ s) = splitlines_keepends x @ splitlines_keepends s"
proof (induction "length x" arbitrary: x rule: less_induct)
  case less
  show ?case
  proof (cases x)
    case Nil
    then show ?thesis by simp
  next
    case (Cons c cs)
    with less.prems have e: "endswith (c # cs) [LF]" by simp
    have tail: "cs = [] \<or> endswith cs [LF]"
      using endswith_Cons_tail[OF e] by blast
    have IH: "splitlines_keepends (cs @ s) = splitlines_keepends cs @ splitlines_keepends s"
      using less.hyps[of cs] tail Cons by simp
    have c1: "cs = [] \<Longrightarrow> c = LF" using e by (simp add: endswith_iff)
    show ?thesis
    proof (cases "c = CR \<and> cs \<noteq> [] \<and> hd cs = LF")
      case True
      then obtain ds where ds: "cs = LF # ds" by (cases cs) auto
      have "ds = [] \<or> endswith ds [LF]"
        using tail ds endswith_Cons_tail[of LF ds] by auto
      then have "splitlines_keepends (ds @ s) = splitlines_keepends ds @ splitlines_keepends s"
        using less.hyps[of ds] Cons ds by simp
      then show ?thesis using True unfolding Cons ds by simp
    next
      case False
      show ?thesis
      proof (cases "is_linebreak c")
        case True
        have n: "\<not> (c = CR \<and> cs @ s \<noteq> [] \<and> hd (cs @ s) = LF)"
          using False c1 by (cases cs) auto
        have f1: "splitlines_keepends (c # cs) = [c] # splitlines_keepends cs"
          unfolding splitlines_keepends_Cons[of c cs] by (simp only: False True if_False if_True)
        have f2: "splitlines_keepends (c # (cs @ s)) = [c] # splitlines_keepends (cs @ s)"
          unfolding splitlines_keepends_Cons[of c "cs @ s"] by (simp only: n True if_False if_True)
        show ?thesis unfolding Cons append_Cons f1 f2 IH by simp
      next
        case nb: False
        then have ncr: "c \<noteq> CR" by (auto simp: is_linebreak_def)
        have "c \<noteq> LF" using nb by (auto simp: is_linebreak_def)
        with c1 have ne: "cs \<noteq> []" by blast
        then have "splitlines_keepends cs \<noteq> []" by (simp add: splitlines_keepends_Nil_iff)
        then obtain l ls where l: "splitlines_keepends cs = l # ls"
          by (cases "splitlines_keepends cs") auto
        have n1: "\<not> (c = CR \<and> cs \<noteq> [] \<and> hd cs = LF)" using ncr by simp
        have n2: "\<not> (c = CR \<and> cs @ s \<noteq> [] \<and> hd (cs @ s) = LF)" using ncr by simp
        have f1: "splitlines_keepends (c # cs) = (c # l) # ls"
          unfolding splitlines_keepends_Cons[of c cs] by (simp only: n1 nb if_False l list.case)
        have f2: "splitlines_keepends (c # (cs @ s)) = (c # l) # ls @ splitlines_keepends s"
          unfolding splitlines_keepends_Cons[of c "cs @ s"]
          by (simp only: n2 nb if_False IH l list.case append_Cons)
        show ?thesis unfolding Cons append_Cons f1 f2 by simp
      qed
    qed
  qed
qed

lemma splitlines_keepends_single:
  "\<forall>c\<in>set b. \<not> is_linebreak c \<Longrightarrow> splitlines_keepends (b @ [LF]) = [b @ [LF]]"
proof (induction b)
  case Nil
  then show ?case by (simp add: is_linebreak_def)
next
  case (Cons c b)
  then show ?case
    by (simp add: splitlines_keepends_Cons is_linebreak_def del: splitlines_keepends.simps)
qed

lemma splitlines_keepends_single_crlf:
  "\<forall>c\<in>set b. \<not> is_linebreak c \<Longrightarrow> splitlines_keepends (b @ [CR, LF]) = [b @ [CR, LF]]"
proof (induction b)
  case Nil
  then show ?case by (simp add: is_linebreak_def)
next
  case (Cons c b)
  then show ?case
    by (simp add: splitlines_keepends_Cons is_linebreak_def del: splitlines_keepends.simps)
qed

lemma is_line_cases:
  assumes "is_line l"
  obtains b where "\<forall>c\<in>set b. \<not> is_linebreak c" and "l = b @ [LF] \<or> l = b @ [CR, LF]"
proof -
  from assms have e: "endswith l [LF]"
    and n: "\<forall>c\<in>set (chop_linebreak l). \<not> is_linebreak c"
    by (auto simp: is_line_def list_all_iff)
  from e obtain h where h: "l = h @ [LF]" by (auto simp: endswith_def suffix_def)
  show ?thesis
  proof (cases "endswith l [CR, LF]")
    case True
    then obtain g where g: "l = g @ [CR, LF]" by (auto simp: endswith_def suffix_def)
    then have "chop_linebreak l = g" using True by (simp add: chop_linebreak_def butlast_append)
    with n have "\<forall>c\<in>set g. \<not> is_linebreak c" by simp
    then show ?thesis using g by (intro that[of g]) simp_all
  next
    case False
    then have "chop_linebreak l = h" using h by (simp add: chop_linebreak_def is_linebreak_def)
    with n have "\<forall>c\<in>set h. \<not> is_linebreak c" by simp
    then show ?thesis using h by (intro that[of h]) simp_all
  qed
qed

lemma splitlines_keepends_line: "is_line l \<Longrightarrow> splitlines_keepends l = [l]"
  by (erule is_line_cases) (auto simp: splitlines_keepends_single splitlines_keepends_single_crlf)

lemma is_line_endswith: "is_line l \<Longrightarrow> endswith l [LF]"
  by (simp add: is_line_def)

lemma splitlines_keepends_lines:
  "\<forall>l\<in>set ls. is_line l \<Longrightarrow> splitlines_keepends (concat ls @ s) = ls @ splitlines_keepends s"
proof (induction ls)
  case Nil
  then show ?case by simp
next
  case (Cons l ls)
  then have "splitlines_keepends (l @ (concat ls @ s)) = splitlines_keepends l @ splitlines_keepends (concat ls @ s)"
    using splitlines_keepends_append[of l "concat ls @ s"] is_line_endswith by simp
  with Cons show ?case by (simp add: splitlines_keepends_line)
qed

lemma chop_linebreak_Cons:
  assumes "\<not> is_linebreak c" "l \<noteq> []"
  shows "chop_linebreak (c # l) = c # chop_linebreak l"
proof -
  from assms(1) have c: "c \<noteq> CR" by (auto simp: is_linebreak_def)
  have e: "endswith (c # l) [CR, LF] \<longleftrightarrow> endswith l [CR, LF]"
    using c by (auto simp: endswith_def suffix_Cons)
  show ?thesis
  proof (cases "endswith l [CR, LF]")
    case True
    then obtain g where g: "l = g @ [CR, LF]" by (auto simp: endswith_def suffix_def)
    have "chop_linebreak (c # l) = butlast (butlast (c # l))"
      using True e by (simp only: chop_linebreak_def if_True)
    moreover have "chop_linebreak l = butlast (butlast l)"
      using True by (simp only: chop_linebreak_def if_True)
    moreover have "butlast (butlast (c # l)) = c # butlast (butlast l)"
      unfolding g by (simp add: butlast_append)
    ultimately show ?thesis by simp
  next
    case False
    have f: "\<not> endswith (c # l) [CR, LF]" using False e by simp
    have "chop_linebreak (c # l) = (if is_linebreak (last l) then butlast (c # l) else c # l)"
      using f assms(2) by (simp only: chop_linebreak_def if_False) simp
    moreover have "chop_linebreak l = (if is_linebreak (last l) then butlast l else l)"
      using False assms(2) by (simp only: chop_linebreak_def if_False) simp
    ultimately show ?thesis using assms(2) by simp
  qed
qed

lemma splitlines_keepends_pieces:
  "p \<in> set (splitlines_keepends s) \<Longrightarrow> p \<noteq> [] \<and> (\<forall>c\<in>set (chop_linebreak p). \<not> is_linebreak c)"
proof (induction "length s" arbitrary: s p rule: less_induct)
  case less
  show ?case
  proof (cases s)
    case Nil
    with less.prems show ?thesis by simp
  next
    case (Cons c cs)
    have IH1: "\<And>q. q \<in> set (splitlines_keepends cs)
                 \<Longrightarrow> q \<noteq> [] \<and> (\<forall>c\<in>set (chop_linebreak q). \<not> is_linebreak c)"
      using less.hyps[of cs] Cons by simp
    have IH2: "\<And>q. cs \<noteq> [] \<Longrightarrow> q \<in> set (splitlines_keepends (tl cs))
                 \<Longrightarrow> q \<noteq> [] \<and> (\<forall>c\<in>set (chop_linebreak q). \<not> is_linebreak c)"
      using less.hyps[of "tl cs"] Cons by simp
    show ?thesis
    proof (cases "c = CR \<and> cs \<noteq> [] \<and> hd cs = LF")
      case True
      have "splitlines_keepends (c # cs) = [CR, LF] # splitlines_keepends (tl cs)"
        unfolding splitlines_keepends_Cons[of c cs] using True by simp
      then have "splitlines_keepends s = [CR, LF] # splitlines_keepends (tl cs)"
        unfolding Cons .
      with less.prems have "p \<in> set ([CR, LF] # splitlines_keepends (tl cs))" by (simp only:)
      then have "p = [CR, LF] \<or> p \<in> set (splitlines_keepends (tl cs))" by simp
      then show ?thesis
      proof
        assume "p = [CR, LF]"
        then show ?thesis by (simp add: chop_linebreak_def endswith_def)
      next
        assume "p \<in> set (splitlines_keepends (tl cs))"
        with IH2 True show ?thesis by blast
      qed
    next
      case False
      show ?thesis
      proof (cases "is_linebreak c")
        case True
        have "splitlines_keepends (c # cs) = [c] # splitlines_keepends cs"
          unfolding splitlines_keepends_Cons[of c cs] by (simp only: False True if_False if_True)
        then have "splitlines_keepends s = [c] # splitlines_keepends cs"
          unfolding Cons .
        with less.prems have "p \<in> set ([c] # splitlines_keepends cs)" by (simp only:)
        then have "p = [c] \<or> p \<in> set (splitlines_keepends cs)" by simp
        then show ?thesis
        proof
          assume "p = [c]"
          then show ?thesis using True by (simp add: chop_linebreak_def endswith_def)
        next
          assume "p \<in> set (splitlines_keepends cs)"
          with IH1 show ?thesis by blast
        qed
      next
        case nb: False
        show ?thesis
        proof (cases "splitlines_keepends cs")
          case Nil
          have "splitlines_keepends (c # cs) = [[c]]"
            unfolding splitlines_keepends_Cons[of c cs] by (simp only: False nb if_False Nil list.case)
          then have "splitlines_keepends s = [[c]]"
            unfolding \<open>s = c # cs\<close> .
          with less.prems have "p \<in> set [[c]]" by (simp only:)
          then have "p = [c]" by simp
          then show ?thesis using nb by (simp add: chop_linebreak_def endswith_def)
        next
          case (Cons l ls)
          have "splitlines_keepends (c # cs) = (c # l) # ls"
            unfolding splitlines_keepends_Cons[of c cs] by (simp only: False nb if_False Cons list.case)
          then have "splitlines_keepends s = (c # l) # ls"
            unfolding \<open>s = c # cs\<close> .
          with less.prems have "p \<in> set ((c # l) # ls)" by (simp only:)
          then have "p = c # l \<or> p \<in> set ls" by simp
          then show ?thesis
          proof
            assume p: "p = c # l"
            have "l \<in> set (splitlines_keepends cs)" using Cons by simp
            with IH1 have l: "l \<noteq> []" "\<forall>c\<in>set (chop_linebreak l). \<not> is_linebreak c" by blast+
            show ?thesis unfolding p using chop_linebreak_Cons[OF nb l(1)] l(2) nb by simp
          next
            assume "p \<in> set ls"
            then have "p \<in> set (splitlines_keepends cs)" using Cons by simp
            with IH1 show ?thesis by blast
          qed
        qed
      qed
    qed
  qed
qed

lemma splitlines_no_linebreak:
  assumes "l \<in> set (splitlines s)"
  shows "\<forall>c\<in>set l. \<not> is_linebreak c"
proof -
  from assms have "l \<in> chop_linebreak ` set (splitlines_keepends s)"
    by (simp add: splitlines_def)
  then obtain p where p: "p \<in> set (splitlines_keepends s)" and l: "l = chop_linebreak p"
    by (rule imageE)
  from splitlines_keepends_pieces[OF p] show ?thesis unfolding l by blast
qed

lemma is_line_intro: "\<forall>c\<in>set b. \<not> is_linebreak c \<Longrightarrow> is_line (b @ [LF])"
proof -
  assume b: "\<forall>c\<in>set b. \<not> is_linebreak c"
  have "\<not> endswith (b @ [LF]) [CR, LF]"
  proof
    assume "endswith (b @ [LF]) [CR, LF]"
    then obtain g where "b @ [LF] = g @ [CR, LF]" by (auto simp: endswith_def suffix_def)
    then have "butlast (b @ [LF]) = butlast (g @ [CR, LF])" by simp
    then have "b = g @ [CR]" by (simp add: butlast_append)
    with b show False by (simp add: is_linebreak_def)
  qed
  then have "chop_linebreak (b @ [LF]) = b" by (simp add: chop_linebreak_def is_linebreak_def)
  with b show ?thesis by (simp add: is_line_def list_all_iff endswith_def)
qed

lemma leading_whitespace_no_linebreak:
  assumes "is_line l" "lstrip l \<noteq> []"
  shows "\<forall>c\<in>set (get_leading_whitespace l). \<not> is_linebreak c"
proof -
  from assms(1) obtain b where b: "\<forall>c\<in>set b. \<not> is_linebreak c"
    and l: "l = b @ [LF] \<or> l = b @ [CR, LF]" by (rule is_line_cases)
  have sp: "isspace LF" "isspace CR" by (simp_all add: isspace_def)
  have "\<exists>c\<in>set b. \<not> isspace c"
  proof (rule ccontr)
    assume "\<not> (\<exists>c\<in>set b. \<not> isspace c)"
    then have "\<forall>c\<in>set l. isspace c" using l sp by auto
    then have "lstrip l = []" by (simp add: lstrip_def)
    with assms(2) show False by simp
  qed
  then obtain c where c: "c \<in> set b" "\<not> isspace c" by blast
  from l obtain t where t: "l = b @ t" by auto
  have "takeWhile isspace l = takeWhile isspace b"
    unfolding t using c by (rule takeWhile_append1[where P = isspace])
  moreover have "set (takeWhile isspace b) \<subseteq> set b"
    by (auto dest: set_takeWhileD)
  ultimately have "set (get_leading_whitespace l) \<subseteq> set b"
    by (simp add: get_leading_whitespace_def)
  with b show ?thesis by blast
qed

lemma insert_lines_nth:
  assumes "int k \<le> i" "i < int (length L)"
  shows "(take k L @ D @ drop k L) ! nat (i + int (length D)) = L ! nat i"
proof -
  have k: "k \<le> nat i" "nat i < length L" using assms by auto
  have "nat (i + int (length D)) = k + (length D + (nat i - k))" using assms by auto
  then have "(take k L @ D @ drop k L) ! nat (i + int (length D))
             = (D @ drop k L) ! (length D + (nat i - k))"
    using k by (simp add: nth_append)
  also have "\<dots> = drop k L ! (nat i - k)" by (simp add: nth_append)
  also have "\<dots> = L ! nat i" using k by simp
  finally show ?thesis .
qed

lemma insert_lines_slice:
  assumes "int k \<le> i" "i \<le> j" "j \<le> int (length L)"
  shows "py_slice (take k L @ D @ drop k L) (i + int (length D)) (j + int (length D))
           = py_slice L i j"
proof -
  have k: "k \<le> nat i" "nat i \<le> nat j" "nat j \<le> length L" using assms by auto
  have r: "py_slice L i j = take (nat j - nat i) (drop (nat i) L)"
    using assms by (auto simp: py_slice_def slice_bound_def Let_def min_def)
  have a: "nat (i + int (length D)) = nat i + length D"
    and b: "nat (j + int (length D)) = nat j + length D" using assms by auto
  have "py_slice (take k L @ D @ drop k L) (i + int (length D)) (j + int (length D))
          = take (nat j - nat i) (drop (nat i + length D) (take k L @ D @ drop k L))"
    using assms k unfolding py_slice_def slice_bound_def Let_def a b
    by (auto simp: min_def)
  also have "drop (nat i + length D) (take k L @ D @ drop k L) = drop (nat i) L"
  proof -
    have "nat i + length D = k + (length D + (nat i - k))" using k by simp
    then show ?thesis using k by (simp add: drop_append)
  qed
  finally show ?thesis using r by simp
qed

lemma slice_through_insert:
  assumes "0 \<le> i" "i \<le> j" "j \<le> int (length xs)"
  shows "py_slice (take (nat j) xs @ S @ drop (nat j) xs) i (j + int (length S))
           = py_slice xs i j @ S"
proof -
  have k: "nat i \<le> nat j" "nat j \<le> length xs" using assms by auto
  have r: "py_slice xs i j = take (nat j - nat i) (drop (nat i) xs)"
    using assms by (auto simp: py_slice_def slice_bound_def Let_def min_def)
  have b: "nat (j + int (length S)) = nat j + length S" using assms by auto
  have "py_slice (take (nat j) xs @ S @ drop (nat j) xs) i (j + int (length S))
          = take (nat j + length S - nat i) (drop (nat i) (take (nat j) xs @ S @ drop (nat j) xs))"
    using assms k unfolding py_slice_def slice_bound_def Let_def b
    by (auto simp: min_def)
  also have "drop (nat i) (take (nat j) xs @ S @ drop (nat j) xs)
             = drop (nat i) (take (nat j) xs) @ S @ drop (nat j) xs"
    using k by simp
  also have "take (nat j + length S - nat i) (drop (nat i) (take (nat j) xs) @ S @ drop (nat j) xs)
             = drop (nat i) (take (nat j) xs) @ S"
    using k by simp
  also have "drop (nat i) (take (nat j) xs) = take (nat j - nat i) (drop (nat i) xs)"
    by (simp add: drop_take)
  finally show ?thesis using r by simp
qed

lemma py_slice_first_mem:
  assumes "0 \<le> i" "i < j" "j \<le> int (length xs)"
  shows "xs ! nat i \<in> set (py_slice xs i j)"
proof -
  have r: "py_slice xs i j = take (nat j - nat i) (drop (nat i) xs)"
    using assms by (auto simp: py_slice_def slice_bound_def Let_def min_def)
  have "nat i < length xs" "0 < nat j - nat i" using assms by auto
  then have "take (nat j - nat i) (drop (nat i) xs) ! 0 = xs ! nat i"
    by simp
  moreover have "0 < length (take (nat j - nat i) (drop (nat i) xs))"
    using assms by auto
  ultimately show ?thesis unfolding r by (metis nth_mem)
qed

subsection \<open>The text of the buffer after a new index\<close>

lemma processed_line_terminated: "endswith l [LF] \<Longrightarrow> processed_line l = l"
  by (simp add: processed_line_def)

lemma concat_endswith:
  assumes "concat ls \<noteq> []" and "\<forall>l\<in>set ls. l = [] \<or> endswith l [LF]"
  shows "endswith (concat ls) [LF]"
  using assms
proof (induction ls rule: rev_induct)
  case Nil
  then show ?case by simp
next
  case (snoc x xs)
  show ?case
  proof (cases "x = []")
    case True
    with snoc show ?thesis by simp
  next
    case False
    with snoc.prems have "suffix [LF] x" by (simp add: endswith_def)
    then have "suffix [LF] (concat xs @ x)" by (rule suffix_appendI)
    then show ?thesis by (simp add: endswith_def)
  qed
qed

lemma processed_line_empty: "processed_line [] = []"
  by (simp add: processed_line_def strip_def lstrip_def rstrip_def)

text \<open>
  When every line of the buffer is empty or ends with a line feed, \<open>_refresh_index\<close> parses
  the text of the buffer as it is and splits it again.
\<close>

lemma refresh_index_lines:
  assumes "refresh_index P m = (None, m')"
    and "\<forall>l\<in>set (lines m). l = [] \<or> endswith l [LF]"
    and "strip (concat (lines m)) \<noteq> []"
  shows "lines m' = splitlines_keepends (concat (lines m))"
proof -
  have "strip [] = []" by (simp add: strip_def lstrip_def rstrip_def)
  with assms(3) have ne: "concat (lines m) \<noteq> []" by metis
  have "\<forall>l\<in>set (lines m). processed_line l = l"
    using assms(2) processed_line_terminated processed_line_empty by auto
  then have p: "map processed_line (lines m) = lines m"
    by (simp add: map_idI)
  have e: "endswith (concat (lines m)) [LF]" by (rule concat_endswith[OF ne assms(2)])
  from assms(1,3) p e show ?thesis
    by (auto simp: refresh_index_def Let_def split: sum.splits)
qed

text \<open>
  The buffer of a Merger holds lines of a text file (\<^const>\<open>is_line\<close>) when the base text has
  some content and no line break but the line feed; \<open>_refresh_index\<close> keeps this.  A line
  that ends with another line break is changed each time the index is built (see
  \<open>body_append_form_feed\<close> below), which is why the properties of the decorators and of the
  appended body are stated for buffers of such lines.
\<close>

lemma set_rstrip_crlf: "set (rstrip_crlf s) \<subseteq> set s"
proof -
  have "set (dropWhile (\<lambda>c. c = CR \<or> c = LF) (rev s)) \<subseteq> set (rev s)"
    by (rule set_dropWhileD[THEN subsetI])
  then show ?thesis by (simp add: rstrip_crlf_def)
qed

lemma rstrip_crlf_keeps:
  assumes "c \<in> set s" "\<not> isspace c"
  shows "c \<in> set (rstrip_crlf s)"
proof -
  have sp: "\<And>x. x = CR \<or> x = LF \<Longrightarrow> isspace x" by (auto simp: isspace_def)
  have "rev s = takeWhile (\<lambda>c. c = CR \<or> c = LF) (rev s) @ dropWhile (\<lambda>c. c = CR \<or> c = LF) (rev s)"
    by simp
  then have "set s = set (takeWhile (\<lambda>c. c = CR \<or> c = LF) (rev s))
                     \<union> set (dropWhile (\<lambda>c. c = CR \<or> c = LF) (rev s))"
    by (metis set_append set_rev)
  moreover have "c \<notin> set (takeWhile (\<lambda>c. c = CR \<or> c = LF) (rev s))"
    using assms(2) sp by (auto dest: set_takeWhileD)
  ultimately show ?thesis using assms(1) by (simp add: rstrip_crlf_def)
qed

lemma only_lf_pieces:
  assumes "only_lf s" "l \<in> set (splitlines_keepends s)"
  shows "only_lf l"
proof -
  have "set l \<subseteq> set (concat (splitlines_keepends s))" using assms(2) by auto
  then have "set l \<subseteq> set s" by (simp only: concat_splitlines_keepends)
  with assms(1) show ?thesis by (auto simp: only_lf_def)
qed

lemma splitlines_keepends_lf:
  "only_lf s \<Longrightarrow> s \<noteq> [] \<Longrightarrow> last s = LF
   \<Longrightarrow> \<forall>l\<in>set (splitlines_keepends s). endswith l [LF]"
proof (induction s)
  case Nil
  then show ?case by simp
next
  case (Cons c cs)
  have ncr: "c \<noteq> CR" using Cons.prems(1) by (auto simp: only_lf_def is_linebreak_def)
  have ocs: "only_lf cs" using Cons.prems(1) by (simp add: only_lf_def)
  show ?case
  proof (cases "c = LF")
    case True
    then have u: "splitlines_keepends (c # cs) = [c] # splitlines_keepends cs"
      by (simp add: splitlines_keepends_Cons is_linebreak_def)
    show ?thesis
    proof (cases "cs = []")
      case True
      with u \<open>c = LF\<close> show ?thesis by (simp add: endswith_def)
    next
      case False
      with Cons.prems have "last cs = LF" by simp
      from Cons.IH[OF ocs False this] u \<open>c = LF\<close> show ?thesis by (simp add: endswith_def)
    qed
  next
    case False
    with Cons.prems(1) have nb: "\<not> is_linebreak c" by (auto simp: only_lf_def)
    from False Cons.prems(3) have ne: "cs \<noteq> []" by auto
    with Cons.prems have "last cs = LF" by simp
    from Cons.IH[OF ocs ne this] have ih: "\<forall>l\<in>set (splitlines_keepends cs). endswith l [LF]" .
    from ne obtain l ls where sk: "splitlines_keepends cs = l # ls"
      by (cases "splitlines_keepends cs") (auto simp: splitlines_keepends_Nil_iff)
    with nb ncr have u: "splitlines_keepends (c # cs) = (c # l) # ls"
      by (simp add: splitlines_keepends_Cons)
    from ih sk have "endswith l [LF]" and r: "\<forall>x\<in>set ls. endswith x [LF]" by auto
    then have "endswith (c # l) [LF]" by (auto simp: endswith_def suffix_Cons)
    with r u show ?thesis by simp
  qed
qed

lemma only_lf_processed_line: "only_lf l \<Longrightarrow> only_lf (processed_line l)"
  using set_rstrip_crlf[of l] by (auto simp: only_lf_def processed_line_def)

lemma processed_line_keeps:
  assumes "c \<in> set l" "\<not> isspace c"
  shows "c \<in> set (processed_line l)"
  using assms rstrip_crlf_keeps[OF assms] by (auto simp: processed_line_def)

lemma refresh_index_lines_lf:
  assumes "refresh_index P m = (None, m')"
    and "\<forall>l\<in>set (lines m). only_lf l"
    and "strip (concat (lines m)) \<noteq> []"
  shows "\<forall>l\<in>set (lines m'). is_line l \<and> only_lf l"
proof -
  define joined where "joined = concat (map processed_line (lines m))"
  define cs where
    "cs = (if \<not> endswith joined [LF] \<and> strip joined \<noteq> [] then joined @ [LF] else joined)"
  have "refresh_index P m =
          (case P cs of
             Inl msg \<Rightarrow>
               (Some (SyntaxError msg),
                m\<lparr>logged := logged m @
                   [LogError (''Syntax error while re-parsing source after modification: '' @ msg)]\<rparr>)
           | Inr t \<Rightarrow>
               (None,
                m\<lparr>tree := t,
                  cls_map := fst (snd (index_tree t)),
                  fn_map := snd (snd (index_tree t)),
                  lines := splitlines_keepends cs\<rparr>))"
    using assms(3) unfolding cs_def joined_def by (simp add: refresh_index_def Let_def)
  with assms(1) have lm: "lines m' = splitlines_keepends cs"
    by (cases "P cs") auto
  have "\<forall>c\<in>set joined. is_linebreak c \<longrightarrow> c = LF"
  proof (intro ballI impI)
    fix c assume "c \<in> set joined" "is_linebreak c"
    then obtain l where "l \<in> set (lines m)" "c \<in> set (processed_line l)"
      by (auto simp: joined_def)
    with assms(2) only_lf_processed_line[of l] \<open>is_linebreak c\<close> show "c = LF"
      by (simp add: only_lf_def)
  qed
  then have oc: "only_lf cs" by (simp add: cs_def only_lf_def)
  from assms(3) obtain c l where c: "l \<in> set (lines m)" "c \<in> set l" "\<not> isspace c"
    by (auto simp: strip_Nil_iff)
  from processed_line_keeps[OF c(2,3)] c(1) have "c \<in> set joined"
    by (auto simp: joined_def)
  with c(3) have sj: "strip joined \<noteq> []" by (auto simp: strip_Nil_iff)
  have ne: "cs \<noteq> []" and la: "last cs = LF"
  proof -
    show "cs \<noteq> []" using sj endswith_last[of joined]
      by (cases "endswith joined [LF]") (simp_all add: cs_def)
    show "last cs = LF" using sj endswith_last[of joined]
      by (cases "endswith joined [LF]") (simp_all add: cs_def)
  qed
  have "\<forall>l\<in>set (splitlines_keepends cs). is_line l"
  proof
    fix l assume l: "l \<in> set (splitlines_keepends cs)"
    with splitlines_keepends_lf[OF oc ne la] have "endswith l [LF]" by blast
    moreover from splitlines_keepends_pieces[OF l]
    have "\<forall>c\<in>set (chop_linebreak l). \<not> is_linebreak c" by blast
    ultimately show "is_line l" by (simp add: is_line_def list_all_iff)
  qed
  with only_lf_pieces[OF oc] show ?thesis
    unfolding lm by blast
qed

lemma Merger_lines_lf:
  assumes "Merger P base_src = (None, m)" and "only_lf base_src" and "strip base_src \<noteq> []"
  shows "\<forall>l\<in>set (lines m). is_line l \<and> only_lf l"
proof -
  let ?l0 = "splitlines_keepends base_src"
  let ?l1 = "butlast ?l0 @ [rstrip_crlf (last ?l0) @ [LF]]"
  from assms(3) have bne: "base_src \<noteq> []" by (auto simp: strip_Nil_iff)
  then have l0: "?l0 \<noteq> []" by (simp add: splitlines_keepends_Nil_iff)
  from assms(3) obtain c where c: "c \<in> set base_src" "\<not> isspace c"
    by (auto simp: strip_Nil_iff)
  have p0: "\<forall>l\<in>set ?l0. only_lf l" using only_lf_pieces[OF assms(2)] by blast
  have c0: "c \<in> set (concat ?l0)" using c(1) by (simp only: concat_splitlines_keepends)
  have s0: "strip (concat ?l0) \<noteq> []" using c by (auto simp: concat_splitlines_keepends strip_Nil_iff)
  have p1: "\<forall>l\<in>set ?l1. only_lf l"
  proof -
    have "only_lf (last ?l0)" using p0 l0 by simp
    then have "only_lf (rstrip_crlf (last ?l0) @ [LF])"
      using set_rstrip_crlf[of "last ?l0"] by (auto simp: only_lf_def)
    then show ?thesis using p0 by (auto dest: in_set_butlastD)
  qed
  have s1: "strip (concat ?l1) \<noteq> []"
  proof -
    from c0 obtain l where l: "l \<in> set ?l0" "c \<in> set l" by auto
    from l0 have "?l0 = butlast ?l0 @ [last ?l0]" by simp
    then have "set ?l0 = set (butlast ?l0) \<union> {last ?l0}"
      by (metis set_append list.set(1) list.set(2))
    with l(1) have "l \<in> set (butlast ?l0) \<or> l = last ?l0" by blast
    then have "c \<in> set (concat ?l1)"
      using l(2) rstrip_crlf_keeps[OF _ c(2), of "last ?l0"] by auto
    with c(2) show ?thesis by (auto simp: strip_Nil_iff)
  qed
  show ?thesis
  proof (cases "last ?l0 \<noteq> [] \<and> \<not> endswith (last ?l0) [LF]")
    case True
    with assms(1) l0
    have "refresh_index P \<lparr>lines = ?l1, tree = [], cls_map = [], fn_map = [], logged = []\<rparr>
          = (None, m)"
      by (simp add: Merger_def Let_def)
    from refresh_index_lines_lf[OF this] p1 s1 show ?thesis by simp
  next
    case False
    with assms(1) l0
    have "refresh_index P \<lparr>lines = ?l0, tree = [], cls_map = [], fn_map = [], logged = []\<rparr>
          = (None, m)"
      by (auto simp: Merger_def Let_def)
    from refresh_index_lines_lf[OF this] p0 s0 show ?thesis by simp
  qed
qed

subsection \<open>The decorators of the new callable\<close>

lemma concat_map_filter:
  "concat (map (\<lambda>d. if f d = [] then [] else if g d then [h d] else []) ds)
     = map h (filter (\<lambda>d. f d \<noteq> [] \<and> g d) ds)"
  by (induction ds) auto

lemma new_decos_payload_filter:
  "new_decos_payload lns target dedented new =
     map (\<lambda>d. reconstructed_deco (get_leading_whitespace (lns ! nat (lineno target - 1)))
                (get_expr_source_segment_v2 dedented d))
         (filter (\<lambda>d. get_expr_source_segment_v2 dedented d \<noteq> []
                       \<and> strip (get_expr_source_segment_v2 dedented d)
                           \<notin> target_deco_src_stripped lns target)
                 (decorator_list new))"
  unfolding new_decos_payload_def Let_def by (rule concat_map_filter)

lemma reconstructed_deco_terminated: "endswith (reconstructed_deco indent src) [LF]"
  by (simp add: reconstructed_deco_def endswith_def Let_def)

lemma new_decos_payload_terminated:
  "\<forall>l\<in>set (new_decos_payload lns target dedented new). endswith l [LF]"
  by (auto simp: new_decos_payload_filter reconstructed_deco_terminated)

lemma splice_in_range:
  "0 \<le> i \<Longrightarrow> splice lns i payload = take (nat i) lns @ payload @ drop (nat i) lns"
  by (simp add: splice_def Let_def min_def)

lemma merge_decorators_guarded:
  assumes "0 \<le> lineno target - 1" "lineno target - 1 < int (length (lines m))"
    and "startswith (lstrip (lines m ! nat (lineno target - 1))) ''def ''
         \<or> startswith (lstrip (lines m ! nat (lineno target - 1))) ''@''"
  shows "merge_decorators P tn cls dedented new target m =
           (if new_decos_payload (lines m) target dedented new = [] then (Inr target, m)
            else
              (case refresh_index P
                      (m\<lparr>lines := take (nat (lineno target - 1)) (lines m)
                                    @ new_decos_payload (lines m) target dedented new
                                    @ drop (nat (lineno target - 1)) (lines m)\<rparr>) of
                 (Some e, m') \<Rightarrow> (Inl e, m')
               | (None, m') \<Rightarrow>
                   (case resolve_target_after_deco m' tn cls of
                      Inl e \<Rightarrow> (Inl e, m')
                    | Inr t \<Rightarrow> (Inr t, m'))))"
  using assms by (auto simp: merge_decorators_def Let_def splice_in_range)

lemma merge_decorators_Inr:
  assumes "merge_decorators P tn cls dedented new target m = (Inr t1, m1)"
  shows "0 \<le> lineno target - 1" and "lineno target - 1 < int (length (lines m))"
    and "startswith (lstrip (lines m ! nat (lineno target - 1))) ''def ''
         \<or> startswith (lstrip (lines m ! nat (lineno target - 1))) ''@''"
  using assms by (auto simp: merge_decorators_def Let_def split: if_splits)

lemma join_sep_concat:
  "xs \<noteq> [] \<Longrightarrow> join sep xs @ sep = concat (map (\<lambda>x. x @ sep) xs)"
  by (induction sep xs rule: join.induct) simp_all

lemma reconstructed_deco_lines:
  assumes "splitlines seg \<noteq> []"
  shows "reconstructed_deco ind seg = concat (map (\<lambda>l. ind @ lstrip l @ [LF]) (splitlines seg))"
proof -
  from assms obtain h t where ht: "splitlines seg = h # t" by (cases "splitlines seg") auto
  have "reconstructed_deco ind seg = join [LF] (map (\<lambda>l. ind @ lstrip l) (h # t)) @ [LF]"
    by (simp add: reconstructed_deco_def Let_def ht)
  also have "\<dots> = concat (map (\<lambda>x. x @ [LF]) (map (\<lambda>l. ind @ lstrip l) (h # t)))"
    by (rule join_sep_concat) simp
  finally show ?thesis by (simp add: ht comp_def)
qed

lemma concat_reconstructed_deco:
  assumes "\<forall>d\<in>set ds. seg d \<noteq> []"
  shows "concat (map (\<lambda>d. reconstructed_deco ind (seg d)) ds)
           = concat (concat (map (\<lambda>d. map (\<lambda>l. ind @ lstrip l @ [LF]) (splitlines (seg d))) ds))"
  using assms
proof (induction ds)
  case Nil
  then show ?case by simp
next
  case (Cons d ds)
  then have "seg d \<noteq> []" by simp
  then have "splitlines (seg d) \<noteq> []"
    by (simp add: splitlines_def splitlines_keepends_Nil_iff)
  from reconstructed_deco_lines[OF this] Cons show ?case by simp
qed

lemma merge_decorators_refreshed:
  assumes "merge_decorators P tn cls dedented new target m = (Inr t1, m1)"
    and "new_decos_payload (lines m) target dedented new \<noteq> []"
  shows "refresh_index P
           (m\<lparr>lines := take (nat (lineno target - 1)) (lines m)
                         @ new_decos_payload (lines m) target dedented new
                         @ drop (nat (lineno target - 1)) (lines m)\<rparr>) = (None, m1)"
proof -
  note g = merge_decorators_Inr[OF assms(1)]
  let ?m = "m\<lparr>lines := take (nat (lineno target - 1)) (lines m)
                         @ new_decos_payload (lines m) target dedented new
                         @ drop (nat (lineno target - 1)) (lines m)\<rparr>"
  obtain r m' where r: "refresh_index P ?m = (r, m')" by (cases "refresh_index P ?m") auto
  from merge_decorators_guarded[OF g, of P tn cls dedented new] assms r
  show ?thesis by (auto split: option.splits sum.splits)
qed

text \<open>
  The buffer after the decorator block, line by line, with the test of the method as it
  is written: on the whole lines of the decorators.
\<close>

lemma merge_decorators_lines:
  assumes "merge_decorators P tn cls dedented new target m = (Inr t1, m1)"
    and "\<forall>l\<in>set (lines m). is_line l"
  shows "lines m1 =
           take (nat (lineno target - 1)) (lines m)
           @ concat (map (\<lambda>d. map (\<lambda>l. get_leading_whitespace (lines m ! nat (lineno target - 1))
                                        @ lstrip l @ [LF])
                                 (splitlines (get_expr_source_segment_v2 dedented d)))
                       (filter (\<lambda>d. get_expr_source_segment_v2 dedented d \<noteq> []
                                     \<and> strip (get_expr_source_segment_v2 dedented d)
                                         \<notin> target_deco_src_stripped (lines m) target)
                               (decorator_list new)))
           @ drop (nat (lineno target - 1)) (lines m)"
    (is "_ = take ?k ?L @ ?D @ drop ?k ?L")
    and "\<forall>l\<in>set (lines m1). is_line l"
proof -
  note g = merge_decorators_Inr[OF assms(1)]
  let ?ind = "get_leading_whitespace (?L ! ?k)"
  let ?sel = "filter (\<lambda>d. get_expr_source_segment_v2 dedented d \<noteq> []
                           \<and> strip (get_expr_source_segment_v2 dedented d)
                               \<notin> target_deco_src_stripped ?L target)
                     (decorator_list new)"
  let ?pl = "new_decos_payload ?L target dedented new"
  have k: "?k < length ?L" using g(1,2) by simp
  then have dl: "?L ! ?k \<in> set ?L" by simp
  have ls: "lstrip (?L ! ?k) \<noteq> []" using g(3) by (auto simp: startswith_def)
  have ind: "\<forall>c\<in>set ?ind. \<not> is_linebreak c"
    using leading_whitespace_no_linebreak[OF _ ls] assms(2) dl by blast
  have D: "\<forall>l\<in>set ?D. is_line l"
  proof
    fix l assume "l \<in> set ?D"
    then obtain d x where x: "x \<in> set (splitlines (get_expr_source_segment_v2 dedented d))"
      and l: "l = ?ind @ lstrip x @ [LF]" by auto
    have "set (lstrip x) \<subseteq> set x" by (auto simp: lstrip_def dest: set_dropWhileD)
    with splitlines_no_linebreak[OF x] ind have "\<forall>c\<in>set (?ind @ lstrip x). \<not> is_linebreak c"
      by auto
    from is_line_intro[OF this] show "is_line l" unfolding l by simp
  qed
  have all: "\<forall>l\<in>set (take ?k ?L @ ?D @ drop ?k ?L). is_line l"
    using assms(2) D by (auto dest: in_set_takeD in_set_dropD)
  have pl: "?pl = map (\<lambda>d. reconstructed_deco ?ind (get_expr_source_segment_v2 dedented d)) ?sel"
    by (rule new_decos_payload_filter)
  have cpl: "concat ?pl = concat ?D"
    unfolding pl by (rule concat_reconstructed_deco) simp
  have goal: "lines m1 = take ?k ?L @ ?D @ drop ?k ?L"
  proof (cases "?pl = []")
    case True
    then have s: "?sel = []" unfolding pl by simp
    have d: "?D = []" by (simp only: s list.map concat.simps)
    have e: "m1 = m"
      using merge_decorators_guarded[OF g, of P tn cls dedented new] True assms(1) by simp
    show ?thesis unfolding d e by simp
  next
    case False
    let ?m = "m\<lparr>lines := take ?k ?L @ ?pl @ drop ?k ?L\<rparr>"
    have r: "refresh_index P ?m = (None, m1)"
      by (rule merge_decorators_refreshed[OF assms(1) False])
    have t: "\<forall>l\<in>set (lines ?m). l = [] \<or> endswith l [LF]"
      using assms(2) new_decos_payload_terminated[of ?L target dedented new] is_line_endswith
      by (auto dest: in_set_takeD in_set_dropD)
    have "?L ! ?k \<in> set (lines ?m)" using k by (auto simp: in_set_conv_nth intro: exI[of _ 0])
    from strip_concat_nonblank[OF this lstrip_strip[OF ls]]
    have nb: "strip (concat (lines ?m)) \<noteq> []" .
    have "concat (lines ?m) = concat (take ?k ?L @ ?D @ drop ?k ?L) @ []"
      using cpl by simp
    with refresh_index_lines[OF r t nb]
    have "lines m1 = splitlines_keepends (concat (take ?k ?L @ ?D @ drop ?k ?L) @ [])" by simp
    also have "\<dots> = (take ?k ?L @ ?D @ drop ?k ?L) @ splitlines_keepends []"
      by (rule splitlines_keepends_lines[OF all])
    finally show ?thesis by simp
  qed
  then show "lines m1 = take ?k ?L @ ?D @ drop ?k ?L" .
  from goal all show "\<forall>l\<in>set (lines m1). is_line l" by simp
qed

text \<open>
  For decorators that stand alone on their lines, the test of the method on their lines
  is the test of the specification on their expressions.
\<close>

lemma rstrip_idem: "rstrip (rstrip s) = rstrip s"
  by (simp add: rstrip_def)

lemma rstrip_source_segment: "rstrip (source_segment src a b) = source_segment src a b"
  by (simp add: source_segment_def Let_def rstrip_idem) (simp add: rstrip_def)

lemma blank_or_tab_isspace: "blank_or_tab c \<Longrightarrow> isspace c"
  by (auto simp: blank_or_tab_def isspace_def)

lemma stands_alone_strip:
  assumes "stands_alone src d"
  shows "strip (get_expr_source_segment_v2 src d) = CHR ''@'' # strip (decorator_expression src d)"
proof -
  let ?seg = "get_expr_source_segment_v2 src d"
  let ?x = "CHR ''@'' # strip (decorator_expression src d)"
  from assms have a: "dropWhile blank_or_tab ?seg = ?x" by (simp add: stands_alone_def)
  have "?seg = takeWhile blank_or_tab ?seg @ dropWhile blank_or_tab ?seg" by simp
  then have s: "?seg = takeWhile blank_or_tab ?seg @ ?x" by (simp only: a)
  have "\<And>c. c \<in> set (takeWhile blank_or_tab ?seg) \<Longrightarrow> isspace c"
    by (auto dest: set_takeWhileD intro: blank_or_tab_isspace)
  then have "dropWhile isspace (takeWhile blank_or_tab ?seg @ ?x) = dropWhile isspace ?x"
    by (rule dropWhile_append2)
  also have "\<dots> = ?x" by (simp add: isspace_def)
  finally have "lstrip ?seg = ?x" using s by (simp add: lstrip_def)
  moreover have "rstrip ?seg = ?seg"
    by (simp add: get_expr_source_segment_v2_def rstrip_source_segment)
  ultimately show ?thesis by (simp add: strip_def)
qed

lemma stands_alone_filter:
  assumes "\<forall>d\<in>set (decorator_list target). stands_alone (concat lns) d"
    and "\<forall>d\<in>set (decorator_list new). stands_alone dedented d"
  shows "filter (\<lambda>d. get_expr_source_segment_v2 dedented d \<noteq> []
                      \<and> strip (get_expr_source_segment_v2 dedented d)
                          \<notin> target_deco_src_stripped lns target)
                (decorator_list new)
         = filter (\<lambda>d. strip (decorator_expression dedented d)
                         \<notin> (\<lambda>t. strip (decorator_expression (concat lns) t))
                             ` set (decorator_list target))
                  (decorator_list new)"
proof (rule filter_cong[OF refl])
  fix d assume d: "d \<in> set (decorator_list new)"
  with assms(2) have sa: "stands_alone dedented d" by blast
  note n = stands_alone_strip[OF sa]
  have ne: "get_expr_source_segment_v2 dedented d \<noteq> []"
  proof
    assume "get_expr_source_segment_v2 dedented d = []"
    then have "strip (get_expr_source_segment_v2 dedented d) = []"
      by (simp add: strip_def lstrip_def rstrip_def)
    with n show False by simp
  qed
  have t: "target_deco_src_stripped lns target
           = (\<lambda>t. CHR ''@'' # strip (decorator_expression (concat lns) t))
               ` set (decorator_list target)"
    using assms(1) by (auto simp: target_deco_src_stripped_def stands_alone_strip)
  show "(get_expr_source_segment_v2 dedented d \<noteq> []
         \<and> strip (get_expr_source_segment_v2 dedented d) \<notin> target_deco_src_stripped lns target)
        = (strip (decorator_expression dedented d)
             \<notin> (\<lambda>t. strip (decorator_expression (concat lns) t)) ` set (decorator_list target))"
    unfolding t n using ne by auto
qed

text \<open>
  C7, as the code has it.  Let the target resolve, let the new snippet parse to a callable
  with the signature of the target, and let the decorator block of \<open>append_callable_body\<close>
  raise nothing and leave the target \<open>t1\<close> and the Merger \<open>m1\<close>.  Let every line of the buffer
  be a line of a text file, and let every decorator of the target and of the new callable
  stand alone on its lines.

  Then the buffer of \<open>m1\<close> is, one after the other: the lines before the line of the \<open>def\<close>
  of the target, as they were (the decorators of the target are among them); the
  decorators of the new callable, in their order, whose trimmed expression is not the
  trimmed expression of a decorator of the target, each line of such a decorator stripped
  on the left and put at the indentation of the line of the \<open>def\<close>; the line of the \<open>def\<close>
  and the lines after it, as they were.  So a decorator whose trimmed expression the
  target has is not inserted, every other one is inserted at the index of the line of the
  \<open>def\<close>, whether the target has decorators or not, and the decorators of the target stay
  above the new ones.  The body block of \<open>append_callable_body\<close> goes on from \<open>t1\<close> and
  \<open>m1\<close>.
\<close>

theorem decorator_merge:
  assumes "resolve_target m tn cls = Inr target"
    and "parse_new_callable P tn snip = Inr new"
    and "fst (signatures_match (args new) (args target))"
    and "merge_decorators P tn cls (dedent snip) new target m = (Inr t1, m1)"
    and "\<forall>l\<in>set (lines m). is_line l"
    and "\<forall>d\<in>set (decorator_list target). stands_alone (concat (lines m)) d"
    and "\<forall>d\<in>set (decorator_list new). stands_alone (dedent snip) d"
  shows "lines m1 =
           take (nat (lineno target - 1)) (lines m)
           @ concat (map (\<lambda>d. map (\<lambda>l. get_leading_whitespace (lines m ! nat (lineno target - 1))
                                        @ lstrip l @ [LF])
                                 (splitlines (get_expr_source_segment_v2 (dedent snip) d)))
                       (filter (\<lambda>d. strip (decorator_expression (dedent snip) d)
                                     \<notin> (\<lambda>t. strip (decorator_expression (concat (lines m)) t))
                                         ` set (decorator_list target))
                               (decorator_list new)))
           @ drop (nat (lineno target - 1)) (lines m)
         \<and> append_callable_body P tn snip cls m = append_body P (dedent snip) new t1 m1"
proof
  show "lines m1 =
           take (nat (lineno target - 1)) (lines m)
           @ concat (map (\<lambda>d. map (\<lambda>l. get_leading_whitespace (lines m ! nat (lineno target - 1))
                                        @ lstrip l @ [LF])
                                 (splitlines (get_expr_source_segment_v2 (dedent snip) d)))
                       (filter (\<lambda>d. strip (decorator_expression (dedent snip) d)
                                     \<notin> (\<lambda>t. strip (decorator_expression (concat (lines m)) t))
                                         ` set (decorator_list target))
                               (decorator_list new)))
           @ drop (nat (lineno target - 1)) (lines m)"
    using merge_decorators_lines(1)[OF assms(4,5)]
    unfolding stands_alone_filter[OF assms(6,7)] .
next
  show "append_callable_body P tn snip cls m = append_body P (dedent snip) new t1 m1"
    using assms(1-4)
    by (auto simp: append_callable_body_def split: prod.splits bool.splits)
qed

text \<open>
  The theorem on the method \<open>T.f\<close>, decorated with \<open>@a\<close> at an indentation of four blanks,
  and a new callable at another indentation, decorated with \<open>@a\<close> and with \<open>@b(1, 2)\<close> on
  two lines: \<open>@a\<close> is not inserted, and the two lines of \<open>@b(1, 2)\<close> are inserted before the
  \<open>def\<close> and below \<open>@a\<close>, each at four blanks.
\<close>

theorem decorator_merge_witness:
  "lines (snd (merge_decorators meth_parser ''f'' (Some ''T'') (dedent meth_snippet) meth_new
                 meth_target (snd (Merger meth_parser meth_base))))
     = [''class T:\<newline>'', ''    @a\<newline>'', ''    @b(1,\<newline>'', ''    2)\<newline>'',
        ''    def f(self, x):\<newline>'', ''        y = x\<newline>'', ''        return y\<newline>'']
   \<and> map (decorator_expression (dedent meth_snippet)) (decorator_list meth_new)
     = [''a'', ''b(1,\<newline>   2)'']
   \<and> map (decorator_expression meth_base) (decorator_list meth_target) = [''a'']"
proof -
  define m where "m = snd (Merger meth_parser meth_base)"
  define m1 where "m1 = snd (merge_decorators meth_parser ''f'' (Some ''T'') (dedent meth_snippet)
                               meth_new meth_target m)"
  have h1: "resolve_target m ''f'' (Some ''T'') = Inr meth_target"
    unfolding m_def by code_simp
  have h2: "parse_new_callable meth_parser ''f'' meth_snippet = Inr meth_new" by code_simp
  have h3: "fst (signatures_match (args meth_new) (args meth_target))" by code_simp
  have "fst (merge_decorators meth_parser ''f'' (Some ''T'') (dedent meth_snippet) meth_new
               meth_target m) = Inr meth_decorated"
    unfolding m_def by code_simp
  then have h4: "merge_decorators meth_parser ''f'' (Some ''T'') (dedent meth_snippet) meth_new
                   meth_target m = (Inr meth_decorated, m1)"
    unfolding m1_def by (metis prod.collapse)
  have h5: "\<forall>l\<in>set (lines m). is_line l" unfolding m_def by code_simp
  have h6: "\<forall>d\<in>set (decorator_list meth_target). stands_alone (concat (lines m)) d"
    unfolding m_def by code_simp
  have h7: "\<forall>d\<in>set (decorator_list meth_new). stands_alone (dedent meth_snippet) d"
    by code_simp
  have r: "take (nat (lineno meth_target - 1)) (lines m)
           @ concat (map (\<lambda>d. map (\<lambda>l. get_leading_whitespace
                                          (lines m ! nat (lineno meth_target - 1))
                                        @ lstrip l @ [LF])
                                 (splitlines (get_expr_source_segment_v2 (dedent meth_snippet) d)))
                       (filter (\<lambda>d. strip (decorator_expression (dedent meth_snippet) d)
                                     \<notin> (\<lambda>t. strip (decorator_expression (concat (lines m)) t))
                                         ` set (decorator_list meth_target))
                               (decorator_list meth_new)))
           @ drop (nat (lineno meth_target - 1)) (lines m)
           = [''class T:\<newline>'', ''    @a\<newline>'', ''    @b(1,\<newline>'', ''    2)\<newline>'',
              ''    def f(self, x):\<newline>'', ''        y = x\<newline>'', ''        return y\<newline>'']"
    unfolding m_def by code_simp
  have e: "map (decorator_expression (dedent meth_snippet)) (decorator_list meth_new)
             = [''a'', ''b(1,\<newline>   2)'']
           \<and> map (decorator_expression meth_base) (decorator_list meth_target) = [''a'']"
    by code_simp
  from decorator_merge[OF h1 h2 h3 h4 h5 h6 h7, THEN conjunct1]
  have "lines m1 = 
           take (nat (lineno meth_target - 1)) (lines m)
           @ concat (map (\<lambda>d. map (\<lambda>l. get_leading_whitespace
                                          (lines m ! nat (lineno meth_target - 1))
                                        @ lstrip l @ [LF])
                                 (splitlines (get_expr_source_segment_v2 (dedent meth_snippet) d)))
                       (filter (\<lambda>d. strip (decorator_expression (dedent meth_snippet) d)
                                     \<notin> (\<lambda>t. strip (decorator_expression (concat (lines m)) t))
                                         ` set (decorator_list meth_target))
                               (decorator_list meth_new)))
           @ drop (nat (lineno meth_target - 1)) (lines m)" .
  then have "lines m1 = [''class T:\<newline>'', ''    @a\<newline>'', ''    @b(1,\<newline>'', ''    2)\<newline>'',
              ''    def f(self, x):\<newline>'', ''        y = x\<newline>'', ''        return y\<newline>'']"
    by (simp only: r)
  with e show ?thesis unfolding m1_def m_def by blast
qed

text \<open>
  The specification puts the new decorators at the line index of the first decorator of
  the target.  Here that index is 0 and a splice there would put \<open>@b\<close> above \<open>@a\<close>; the
  method splices at index 1, the line of the \<open>def\<close>.
\<close>

theorem decorator_merge_counterexample:
  "lines (snd (merge_decorators deco_parser ''f'' None (dedent deco_snippet) deco_new
                 deco_target (snd (Merger deco_parser deco_base))))
     = [''@a\<newline>'', ''@b\<newline>'', ''def f():\<newline>'', ''    pass\<newline>'']
   \<and> e_lineno (hd (decorator_list deco_target)) - 1 = 0
   \<and> splice (lines (snd (Merger deco_parser deco_base)))
         (e_lineno (hd (decorator_list deco_target)) - 1) [''@b\<newline>'']
     = [''@b\<newline>'', ''@a\<newline>'', ''def f():\<newline>'', ''    pass\<newline>'']
   \<and> result (snd (append_callable_body deco_parser ''f'' deco_snippet None
                     (snd (Merger deco_parser deco_base))))
     = ''@a\<newline>@b\<newline>def f():\<newline>    pass\<newline>\<newline>    x = 1\<newline>''"
  by code_simp

text \<open>
  A decorator that does not stand alone on its lines.  The decorator \<open>@a\<close> of the target
  is followed by a comment; the method compares the lines of the decorators, which
  differ, and inserts \<open>@a\<close> a second time although the two expressions are the same.
\<close>

lemma decorator_comment_duplicate:
  "lines (snd (merge_decorators comment_parser ''f'' None (dedent comment_snippet) comment_target
                 comment_target (snd (Merger comment_parser comment_base))))
     = [''@a  # c\<newline>'', ''@a\<newline>'', ''def f():\<newline>'', ''    pass\<newline>'']
   \<and> decorator_expression comment_base (hd (decorator_list comment_target)) = ''a''
   \<and> decorator_expression (dedent comment_snippet) (hd (decorator_list comment_target)) = ''a''
   \<and> \<not> stands_alone comment_base (hd (decorator_list comment_target))"
  by code_simp

subsection \<open>The appended body\<close>

lemma replicate_endswith: "0 < n \<Longrightarrow> endswith (replicate n LF) [LF]"
proof -
  assume "0 < n"
  then obtain k where n: "n = Suc k" by (cases n) auto
  have "replicate (Suc k) LF = replicate k LF @ [LF]"
    by (simp add: replicate_append_same)
  then show ?thesis by (simp add: n endswith_def del: replicate.simps)
qed

lemma reindent_terminated: "reindent s ind = [] \<or> endswith (reindent s ind) [LF]"
proof -
  let ?dl = "splitlines (dedent s)"
  show ?thesis
  proof (cases "\<not> list_ex (\<lambda>line. strip line \<noteq> []) ?dl \<and> ?dl \<noteq> []")
    case True
    then have "reindent s ind = replicate (length ?dl) LF"
      by (simp add: reindent_def Let_def)
    with True replicate_endswith[of "length ?dl"] show ?thesis by simp
  next
    case False
    then show ?thesis
      by (auto simp: reindent_def Let_def endswith_def)
  qed
qed

lemma prefix_for_body_cases: "prefix_for_body lns t = [] \<or> prefix_for_body lns t = [LF]"
  by (simp add: prefix_for_body_def Let_def)

lemma append_callable_body_success:
  assumes "append_callable_body P tn snip cls m = (None, m')"
    and "resolve_target m tn cls = Inr target"
    and "parse_new_callable P tn snip = Inr new"
    and "merge_decorators P tn cls (dedent snip) new target m = (Inr t1, m1)"
  shows "append_body P (dedent snip) new t1 m1 = (None, m')"
  using assms
  by (auto simp: append_callable_body_def split: prod.splits bool.splits)

lemma body_indent_str_first_line:
  assumes "body t \<noteq> []" "0 \<le> lineno (hd (body t)) - 1"
    and "lineno (hd (body t)) - 1 < int (length lns)"
    and "get_leading_whitespace (lns ! nat (lineno (hd (body t)) - 1)) \<noteq> []"
  shows "body_indent_str lns t = get_leading_whitespace (lns ! nat (lineno (hd (body t)) - 1))"
  using assms by (simp add: body_indent_str_def Let_def)

text \<open>The buffer after the body block, line by line.\<close>

lemma append_body_lines:
  assumes "append_body P dedented new t m = (None, m')"
    and "strip (new_body_text dedented new) \<noteq> []"
    and "\<forall>l\<in>set (lines m). is_line l"
    and "0 \<le> body_splice_idx t"
    and "strip (concat (lines m)) \<noteq> []"
  shows "lines m' =
           take (nat (body_splice_idx t)) (lines m)
           @ splitlines_keepends
               (prefix_for_body (lines m) t
                @ reindent (new_body_text dedented new) (body_indent_str (lines m) t))
           @ drop (nat (body_splice_idx t)) (lines m)"
proof -
  let ?k = "body_splice_idx t"
  let ?x = "prefix_for_body (lines m) t
            @ reindent (new_body_text dedented new) (body_indent_str (lines m) t)"
  let ?m1 = "m\<lparr>lines := take (nat ?k) (lines m) @ [?x] @ drop (nat ?k) (lines m)\<rparr>"
  let ?L = "if ?k - 1 \<ge> 0 \<and> ?k - 1 < int (length (lines m))
               \<and> strip (lines m ! nat (?k - 1)) \<noteq> []
               \<and> \<not> endswith (lines m ! nat (?k - 1)) [LF]
            then (lines m)[nat (?k - 1) := rstrip_crlf (lines m ! nat (?k - 1)) @ [LF]]
            else lines m"
  have lf: "\<forall>l\<in>set (lines m). endswith l [LF]" using assms(3) is_line_endswith by blast
  have e: "append_body P dedented new t m = refresh_index P (m\<lparr>lines := splice ?L ?k [?x]\<rparr>)"
    using assms(2) by (simp add: append_body_def Let_def)
  have L: "?L = lines m"
  proof (cases "?k - 1 \<ge> 0 \<and> ?k - 1 < int (length (lines m))")
    case True
    then have "lines m ! nat (?k - 1) \<in> set (lines m)" by (simp add: nat_less_iff)
    with lf have "endswith (lines m ! nat (?k - 1)) [LF]" by blast
    then show ?thesis by simp
  next
    case False
    then show ?thesis by auto
  qed
  have r: "refresh_index P ?m1 = (None, m')"
    using assms(1) unfolding e L splice_in_range[OF assms(4)] .
  have x: "?x = [] \<or> endswith ?x [LF]"
    using reindent_terminated[of "new_body_text dedented new" "body_indent_str (lines m) t"]
          prefix_for_body_cases[of "lines m" t]
    by (auto simp: endswith_def intro: suffix_appendI)
  have t: "\<forall>l\<in>set (lines ?m1). l = [] \<or> endswith l [LF]"
    using lf x by (auto dest: in_set_takeD in_set_dropD)
  have sub: "set (concat (lines m)) \<subseteq> set (concat (lines ?m1))"
  proof -
    have "lines m = take (nat ?k) (lines m) @ drop (nat ?k) (lines m)" by simp
    then have "set (lines m) = set (take (nat ?k) (lines m)) \<union> set (drop (nat ?k) (lines m))"
      by (metis set_append)
    then show ?thesis by auto
  qed
  from assms(5) have "\<not> (\<forall>c\<in>set (concat (lines m)). isspace c)"
    unfolding strip_Nil_iff .
  then obtain c where c: "c \<in> set (concat (lines m))" "\<not> isspace c" by blast
  with sub have "c \<in> set (concat (lines ?m1))" by blast
  with c(2) have "\<not> (\<forall>c\<in>set (concat (lines ?m1)). isspace c)" by blast
  then have nb: "strip (concat (lines ?m1)) \<noteq> []"
    unfolding strip_Nil_iff .
  have tk: "\<forall>l\<in>set (take (nat ?k) (lines m)). is_line l"
    and dk: "\<forall>l\<in>set (drop (nat ?k) (lines m)). is_line l"
    using assms(3) by (auto dest: in_set_takeD in_set_dropD)
  have "lines m' = splitlines_keepends (concat (lines ?m1))"
    by (rule refresh_index_lines[OF r t nb])
  also have "concat (lines ?m1)
             = concat (take (nat ?k) (lines m)) @ (?x @ (concat (drop (nat ?k) (lines m)) @ []))"
    by simp
  also have "splitlines_keepends \<dots>
             = take (nat ?k) (lines m)
               @ splitlines_keepends (?x @ (concat (drop (nat ?k) (lines m)) @ []))"
    by (rule splitlines_keepends_lines[OF tk])
  also have "splitlines_keepends (?x @ (concat (drop (nat ?k) (lines m)) @ []))
             = splitlines_keepends ?x
               @ splitlines_keepends (concat (drop (nat ?k) (lines m)) @ [])"
    by (rule splitlines_keepends_append[OF x])
  also have "splitlines_keepends (concat (drop (nat ?k) (lines m)) @ [])
             = drop (nat ?k) (lines m) @ splitlines_keepends []"
    by (rule splitlines_keepends_lines[OF dk])
  finally show ?thesis by simp
qed

lemma new_body_text_body_text_of:
  "body new \<noteq> [] \<Longrightarrow> new_body_text dedented new = body_text_of (splitlines_keepends dedented) new"
  by (simp add: new_body_text_def body_text_of_def Let_def)

lemma block_form_nonblank:
  assumes "block_form lns c"
  shows "strip (body_text_of lns c) \<noteq> []"
proof -
  let ?a = "lineno (hd (body c))" and ?b = "end_lineno (last (body c))"
  from assms have r: "0 \<le> ?a - 1" "?a - 1 < ?b" "?b \<le> int (length lns)"
    and s: "strip (lns ! nat (?a - 1)) \<noteq> []"
    by (simp_all add: block_form_def Let_def)
  from py_slice_first_mem[OF r] have "lns ! nat (?a - 1) \<in> set (py_slice lns (?a - 1) ?b)" .
  from strip_concat_nonblank[OF this s] show ?thesis by (simp add: body_text_of_def)
qed

text \<open>
  C2, as the code has it.  Let \<open>append_callable_body\<close> return, with \<open>target\<close> and \<open>new\<close> the
  two callables, \<open>t1\<close> and \<open>m1\<close> the target and the Merger after the decorator block, and
  \<open>target'\<close> the target in the index after the call.  Let every line of the buffer be a
  line of a text file, let the target in the buffer and the new callable in its dedented
  snippet be written as blocks, and let the lines of the dedented snippet as the parser
  counts them be the lines as the program splits them.

  The parser is a parameter here, so where it finds the body of the target in a text
  that the method has changed is a hypothesis: after the decorator block the body is the
  old one, moved down by the number of lines that were inserted; after the call it begins
  on the same line and is longer by the number of lines that were appended.

  Then the body text of the target after the call is, one after the other: its body text
  before the call, byte for byte; the separator, a blank line (or nothing when the last
  line of the old body is blank); the statement range of the new callable, from the line
  of its first statement to the last line of its last statement, passed through
  \<open>_reindent\<close> with the indentation of the body of the target.  No hypothesis relates the
  indentation of the new snippet to that of the target.
\<close>

theorem body_append_prefix:
  assumes "append_callable_body P tn snip cls m = (None, m')"
    and "resolve_target m tn cls = Inr target"
    and "parse_new_callable P tn snip = Inr new"
    and "merge_decorators P tn cls (dedent snip) new target m = (Inr t1, m1)"
    and "resolve_target m' tn cls = Inr target'"
    and "\<forall>l\<in>set (lines m). is_line l"
    and "block_form (lines m) target"
    and "block_form (splitlines_keepends (dedent snip)) new"
    and "source_lines (dedent snip) = splitlines_keepends (dedent snip)"
    and "body_moved target t1 (int (length (lines m1)) - int (length (lines m))) 0"
    and "body_moved target target' (int (length (lines m1)) - int (length (lines m)))
           (int (length (lines m')) - int (length (lines m1)))"
  shows "body_text_of (lines m') target' =
           body_text_of (lines m) target
           @ separator_after (lines m) target
           @ reindent (body_text_of (splitlines_keepends (dedent snip)) new)
               (body_indentation (lines m) target)"
proof -
  let ?L = "lines m" and ?L1 = "lines m1" and ?L' = "lines m'"
  let ?k = "nat (lineno target - 1)"
  let ?a = "lineno (hd (body target))" and ?b = "end_lineno (last (body target))"
  let ?D = "concat (map (\<lambda>d. map (\<lambda>l. get_leading_whitespace (?L ! ?k) @ lstrip l @ [LF])
                                 (splitlines (get_expr_source_segment_v2 (dedent snip) d)))
                       (filter (\<lambda>d. get_expr_source_segment_v2 (dedent snip) d \<noteq> []
                                     \<and> strip (get_expr_source_segment_v2 (dedent snip) d)
                                         \<notin> target_deco_src_stripped ?L target)
                               (decorator_list new)))"
  let ?d = "int (length ?D)"
  let ?X = "prefix_for_body ?L1 t1
            @ reindent (new_body_text (dedent snip) new) (body_indent_str ?L1 t1)"
  let ?S = "splitlines_keepends ?X"
  have bt: "body target \<noteq> []" "1 \<le> lineno target" "lineno target < ?a" "?a \<le> ?b"
    "?b \<le> int (length ?L)"
    and fl: "get_leading_whitespace (?L ! nat (?a - 1)) \<noteq> []" "strip (?L ! nat (?a - 1)) \<noteq> []"
    using assms(7) by (simp_all add: block_form_def Let_def)
  have bn: "body new \<noteq> []" using assms(8) by (simp add: block_form_def)
  have L1: "?L1 = take ?k ?L @ ?D @ drop ?k ?L"
    and l1: "\<forall>l\<in>set ?L1. is_line l"
    using merge_decorators_lines[OF assms(4,6)] by blast+
  have k: "int ?k \<le> ?a - 1" "?k \<le> length ?L" using bt by auto
  have len1: "int (length ?L1) - int (length ?L) = ?d"
    unfolding L1 using k by simp
  have t1: "body t1 \<noteq> []" "lineno (hd (body t1)) = ?a + ?d" "end_lineno (last (body t1)) = ?b + ?d"
    using assms(10) unfolding len1 by (simp_all add: body_moved_def)
  have j: "body_splice_idx t1 = ?b + ?d" using t1 by (simp add: body_splice_idx_def)
  have j0: "0 \<le> body_splice_idx t1" unfolding j using bt by simp
  have jn: "?b + ?d \<le> int (length ?L1)" unfolding L1 using bt k by simp
  have b: "append_body P (dedent snip) new t1 m1 = (None, m')"
    by (rule append_callable_body_success[OF assms(1-4)])
  have nt: "new_body_text (dedent snip) new = body_text_of (splitlines_keepends (dedent snip)) new"
    by (rule new_body_text_body_text_of[OF bn])
  have ne: "strip (new_body_text (dedent snip) new) \<noteq> []"
    unfolding nt by (rule block_form_nonblank[OF assms(8)])
  have first: "?L1 ! nat (?a + ?d - 1) = ?L ! nat (?a - 1)"
  proof -
    have "?a - 1 < int (length ?L)" using bt by simp
    from insert_lines_nth[OF k(1) this, of ?D] show ?thesis unfolding L1 by (simp add: algebra_simps)
  qed
  have lastl: "?L1 ! nat (?b + ?d - 1) = ?L ! nat (?b - 1)"
  proof -
    have "int ?k \<le> ?b - 1" "?b - 1 < int (length ?L)" using bt k by simp_all
    from insert_lines_nth[OF this, of ?D] show ?thesis unfolding L1 by (simp add: algebra_simps)
  qed
  have "?L1 ! nat (?a + ?d - 1) \<in> set ?L1"
    using bt jn by (intro nth_mem) auto
  with fl(2) first have nb: "strip (concat ?L1) \<noteq> []"
    using strip_concat_nonblank[of "?L1 ! nat (?a + ?d - 1)" ?L1] by simp
  have L': "?L' = take (nat (?b + ?d)) ?L1 @ ?S @ drop (nat (?b + ?d)) ?L1"
    using append_body_lines[OF b ne l1 j0 nb] unfolding j .
  have len': "int (length ?L') - int (length ?L1) = int (length ?S)"
    unfolding L' using jn bt by simp
  have t': "body target' \<noteq> []" "lineno (hd (body target')) = ?a + ?d"
    "end_lineno (last (body target')) = ?b + ?d + int (length ?S)"
    using assms(11) unfolding len1 len' by (simp_all add: body_moved_def)
  have "body_text_of ?L' target' = concat (py_slice ?L' (?a + ?d - 1) (?b + ?d + int (length ?S)))"
    by (simp add: body_text_of_def t')
  also have "py_slice ?L' (?a + ?d - 1) (?b + ?d + int (length ?S))
             = py_slice ?L1 (?a + ?d - 1) (?b + ?d) @ ?S"
    unfolding L' using bt jn by (intro slice_through_insert) auto
  also have "py_slice ?L1 (?a + ?d - 1) (?b + ?d) = py_slice ?L (?a - 1) ?b"
  proof -
    have "py_slice (take ?k ?L @ ?D @ drop ?k ?L) ((?a - 1) + ?d) (?b + ?d) = py_slice ?L (?a - 1) ?b"
      using bt k by (intro insert_lines_slice) auto
    then show ?thesis unfolding L1 by (simp add: algebra_simps)
  qed
  finally have body: "body_text_of ?L' target' = body_text_of ?L target @ ?X"
    by (simp add: body_text_of_def concat_splitlines_keepends)
  have sep: "prefix_for_body ?L1 t1 = separator_after ?L target"
    using bt jn lastl by (simp add: prefix_for_body_def separator_after_def j Let_def)
  have "0 \<le> lineno (hd (body t1)) - 1" "lineno (hd (body t1)) - 1 < int (length ?L1)"
    "get_leading_whitespace (?L1 ! nat (lineno (hd (body t1)) - 1)) \<noteq> []"
    using bt jn fl(1) first unfolding t1 by simp_all
  from body_indent_str_first_line[OF t1(1) this]
  have ind: "body_indent_str ?L1 t1 = body_indentation ?L target"
    unfolding t1 first by (simp add: body_indentation_def)
  show ?thesis unfolding body sep ind nt by simp
qed

text \<open>
  The theorem on the method \<open>T.f(self, x)\<close>, whose body is indented by eight blanks, and a
  new callable indented by two blanks with a body indented by two more.  A decorator
  is inserted first, on two lines.  The body of the target is then its old body, a blank
  line, and the \<open>if\<close> statement, the blank line and the \<open>return\<close> of the new callable at eight
  blanks, the inner line of the \<open>if\<close> two blanks deeper as it was written.
\<close>

theorem body_append_prefix_witness:
  "body_text_of (lines (snd (Merger meth_parser meth_base))) meth_target
     = ''        y = x\<newline>'' @ ''        return y\<newline>''
   \<and> body_text_of
        (lines (snd (append_callable_body meth_parser ''f'' meth_snippet (Some ''T'')
                       (snd (Merger meth_parser meth_base))))) meth_merged
     = ''        y = x\<newline>'' @ ''        return y\<newline>''
       @ ''\<newline>''
       @ ''        if x:\<newline>'' @ ''          y = 1\<newline>'' @ ''\<newline>'' @ ''        return y\<newline>''"
proof -
  define m where "m = snd (Merger meth_parser meth_base)"
  define m1 where "m1 = snd (merge_decorators meth_parser ''f'' (Some ''T'') (dedent meth_snippet)
                               meth_new meth_target m)"
  define m' where "m' = snd (append_callable_body meth_parser ''f'' meth_snippet (Some ''T'') m)"
  have "fst (append_callable_body meth_parser ''f'' meth_snippet (Some ''T'') m) = None"
    unfolding m_def by code_simp
  then have h1: "append_callable_body meth_parser ''f'' meth_snippet (Some ''T'') m = (None, m')"
    unfolding m'_def by (metis prod.collapse)
  have h2: "resolve_target m ''f'' (Some ''T'') = Inr meth_target"
    unfolding m_def by code_simp
  have h3: "parse_new_callable meth_parser ''f'' meth_snippet = Inr meth_new" by code_simp
  have "fst (merge_decorators meth_parser ''f'' (Some ''T'') (dedent meth_snippet) meth_new
               meth_target m) = Inr meth_decorated"
    unfolding m_def by code_simp
  then have h4: "merge_decorators meth_parser ''f'' (Some ''T'') (dedent meth_snippet) meth_new
                   meth_target m = (Inr meth_decorated, m1)"
    unfolding m1_def by (metis prod.collapse)
  have h5: "resolve_target m' ''f'' (Some ''T'') = Inr meth_merged"
    unfolding m'_def m_def by code_simp
  have h6: "\<forall>l\<in>set (lines m). is_line l" unfolding m_def by code_simp
  have h7: "block_form (lines m) meth_target" unfolding m_def by code_simp
  have h8: "block_form (splitlines_keepends (dedent meth_snippet)) meth_new" by code_simp
  have h9: "source_lines (dedent meth_snippet) = splitlines_keepends (dedent meth_snippet)"
    by code_simp
  have h10: "body_moved meth_target meth_decorated
               (int (length (lines m1)) - int (length (lines m))) 0"
    unfolding m1_def m_def by code_simp
  have h11: "body_moved meth_target meth_merged
               (int (length (lines m1)) - int (length (lines m)))
               (int (length (lines m')) - int (length (lines m1)))"
    unfolding m'_def m1_def m_def by code_simp
  have b: "body_text_of (lines m) meth_target = ''        y = x\<newline>'' @ ''        return y\<newline>''"
    unfolding m_def by code_simp
  have r: "body_text_of (lines m) meth_target
           @ separator_after (lines m) meth_target
           @ reindent (body_text_of (splitlines_keepends (dedent meth_snippet)) meth_new)
               (body_indentation (lines m) meth_target)
           = ''        y = x\<newline>'' @ ''        return y\<newline>''
             @ ''\<newline>''
             @ ''        if x:\<newline>'' @ ''          y = 1\<newline>'' @ ''\<newline>''
             @ ''        return y\<newline>''"
    unfolding m_def by code_simp
  from body_append_prefix[OF h1 h2 h3 h4 h5 h6 h7 h8 h9 h10 h11]
  have "body_text_of (lines m') meth_merged =
          body_text_of (lines m) meth_target
          @ separator_after (lines m) meth_target
          @ reindent (body_text_of (splitlines_keepends (dedent meth_snippet)) meth_new)
              (body_indentation (lines m) meth_target)" .
  then have "body_text_of (lines m') meth_merged
             = ''        y = x\<newline>'' @ ''        return y\<newline>''
               @ ''\<newline>''
               @ ''        if x:\<newline>'' @ ''          y = 1\<newline>'' @ ''\<newline>''
               @ ''        return y\<newline>''"
    by (simp only: r)
  with b show ?thesis unfolding m'_def m_def by blast
qed

text \<open>
  The specification has the appended remainder equal to the re-indented statements of the
  new callable.  On \<open>helper(x)\<close> the call returns, the body text of the target was
  \<open>return x\<close>, the re-indented statements are \<open>return x + 1\<close>, and the body text of the
  target in the merged buffer holds a blank line between the two.
\<close>

theorem body_append_prefix_counterexample:
  "fst (append_callable_body helper_parser ''helper'' helper_snippet None
          (snd (Merger helper_parser helper_base))) = None
   \<and> map_of (fn_map (snd (Merger helper_parser helper_base))) ''helper'' = Some helper_target
   \<and> body_text_of (lines (snd (Merger helper_parser helper_base))) helper_target
       = ''    return x\<newline>''
   \<and> reindent (new_body_text (dedent helper_snippet) helper_new)
         (body_indent_str (lines (snd (Merger helper_parser helper_base))) helper_target)
       = ''    return x + 1\<newline>''
   \<and> map_of (fn_map (snd (append_callable_body helper_parser ''helper'' helper_snippet None
                             (snd (Merger helper_parser helper_base))))) ''helper''
       = Some helper_merged
   \<and> body_text_of
         (lines (snd (append_callable_body helper_parser ''helper'' helper_snippet None
                        (snd (Merger helper_parser helper_base))))) helper_merged
       = ''    return x\<newline>\<newline>    return x + 1\<newline>''
   \<and> body_text_of
         (lines (snd (append_callable_body helper_parser ''helper'' helper_snippet None
                        (snd (Merger helper_parser helper_base))))) helper_merged
       \<noteq> body_text_of (lines (snd (Merger helper_parser helper_base))) helper_target
          @ reindent (new_body_text (dedent helper_snippet) helper_new)
              (body_indent_str (lines (snd (Merger helper_parser helper_base))) helper_target)"
  by code_simp

text \<open>
  Callables that are not written as blocks.  When the target is a method written on one
  line, the method takes the indentation of that line for the indentation of the body:
  the call returns, the new statement stands in the class after the method, and the body
  of the method is what it was.
\<close>

lemma body_append_one_line_target:
  "fst (append_callable_body inline_parser ''f'' inline_snippet (Some ''T'')
          (snd (Merger inline_parser inline_base))) = None
   \<and> result (snd (append_callable_body inline_parser ''f'' inline_snippet (Some ''T'')
                     (snd (Merger inline_parser inline_base))))
     = ''class T:\<newline>'' @ ''    def f(self): pass\<newline>'' @ ''\<newline>'' @ ''    x = 1\<newline>''
   \<and> resolve_target (snd (append_callable_body inline_parser ''f'' inline_snippet (Some ''T'')
                             (snd (Merger inline_parser inline_base)))) ''f'' (Some ''T'')
     = Inr inline_target
   \<and> \<not> block_form (lines (snd (Merger inline_parser inline_base))) inline_target"
  by code_simp

text \<open>
  When the new callable is written on one line, its first statement is on the line of its
  \<open>def\<close>, so the lines that are appended are that line: the target gets a nested
  definition.
\<close>

lemma body_append_one_line_definition:
  "new_body_text (dedent oneline_snippet)
       (FunctionDef 1 1 0 ''helper'' (Arguments [] [''x''] None [] None) [] [OtherStmt 1 1 15])
     = ''def helper(x): return x + 1\<newline>''
   \<and> result (snd (append_callable_body oneline_parser ''helper'' oneline_snippet None
                     (snd (Merger oneline_parser helper_base))))
     = ''def helper(x):\<newline>    return x\<newline>\<newline>    def helper(x): return x + 1\<newline>''"
  by code_simp

text \<open>
  A line of the buffer that is no line of a text file: it ends with a form feed.  It is
  given a line feed each time the index is built, by the constructor and again when the
  body is appended, so that the text after the old body is not the separator and the new
  statements alone.
\<close>

lemma body_append_form_feed:
  "result (snd (Merger ff_parser ff_base)) = ff_base @ ''\<newline>''
   \<and> lines (snd (Merger ff_parser ff_base))
     = [''def f():\<newline>'', ''    x = 1'' @ [CHR 0x0C], ''\<newline>'', ''\<newline>'']
   \<and> result (snd (append_callable_body ff_parser ''f'' ff_snippet None
                     (snd (Merger ff_parser ff_base))))
     = ''def f():\<newline>'' @ ''    x = 1'' @ [CHR 0x0C] @ ''\<newline>'' @ ''\<newline>'' @ ''    y = 2\<newline>''
       @ ''\<newline>\<newline>''
   \<and> body_text_of (lines (snd (Merger ff_parser ff_base))) ff_target = ''    x = 1'' @ [CHR 0x0C]
   \<and> prefix_for_body (lines (snd (Merger ff_parser ff_base))) ff_target = ''\<newline>''
   \<and> reindent (new_body_text (dedent ff_snippet) ff_target)
         (body_indent_str (lines (snd (Merger ff_parser ff_base))) ff_target)
     = ''    y = 2\<newline>''"
  by code_simp

subsection \<open>ADD mode a second time\<close>

lemma node_not_in_existing_meth_names: "PNode n \<notin> existing_meth_names cls_node"
  by (auto simp: existing_meth_names_def)

text \<open>
  C3.  The claim wants a second ADD merge of the same new unit to change nothing.  The
  new unit with the class \<open>T\<close> and the method \<open>test_a\<close> merges into the empty base and
  gives its own text.  Merged again into that text, the class is there, and in
  \<open>add_pending_class\<close> the test \<open>name not in existing_meth_names\<close> compares the node of
  the method with the names of the methods, so it holds of every method: \<open>test_a\<close> is added
  to the class a second time, and the merged set holds the node where a name should be.
\<close>

theorem add_mode_second_pass:
  "merge_tests dup_parser example_hash dup_new [] ''ADD'' None
     = Inr (dup_new,
            [\<lparr>class_name = Some ''T'', func_name = PStr ''test_a'',
              func_def = Some ''    def test_a(self):\<newline>        pass\<newline>'', file_path = None\<rparr>])
   \<and> merge_tests dup_parser example_hash dup_new dup_new ''ADD'' None
     = Inr (dup_new @ ''\<newline>    def test_a(self):\<newline>        pass\<newline>'',
            [\<lparr>class_name = Some ''T'', func_name = PNode dup_method,
              func_def = Some ''    def test_a(self):\<newline>        pass\<newline>'', file_path = None\<rparr>])"
  by code_simp

end
